theory Spec2Isabelle
  imports Main "HOL-Library.Sublist" "HOL-Library.Word"
begin

section \<open>Python values read from a snapshot\<close>

text \<open>
  \<^verbatim>\<open>json.load\<close> returns an untyped Python value. The script never checks the type of
  what it reads, so the model keeps every shape a JSON document can have:
  \<open>None\<close>, booleans, integers, floats (carried by their 64-bit pattern, never
  inspected), strings, lists and dicts. A dict is the list of its items in insertion
  order; \<open>map_of\<close> looks a key up. Strings are \<open>char\<close> lists.
\<close>

datatype json =
    JNull
  | JBool bool
  | JInt int
  | JFloat "64 word"
  | JStr string
  | JArr "json list"
  | JObj "(string \<times> json) list"

text \<open>The exception classes the script can meet. An exception is the \<open>Inl\<close> of a sum.\<close>

datatype py_error =
    KeyError
  | TypeError
  | AttributeError
  | FileNotFoundError
  | PermissionError
  | IsADirectoryError
  | NotADirectoryError
  | FileExistsError
  | UnicodeDecodeError
  | JSONDecodeError
  | OSError

definition bind_err :: "py_error + 'a \<Rightarrow> ('a \<Rightarrow> py_error + 'b) \<Rightarrow> py_error + 'b" where
  "bind_err m f = (case m of Inl e \<Rightarrow> Inl e | Inr x \<Rightarrow> f x)"

text \<open>A comprehension or generator over a list: the first exception ends it.\<close>

fun map_err :: "('a \<Rightarrow> py_error + 'b) \<Rightarrow> 'a list \<Rightarrow> py_error + 'b list" where
  "map_err f [] = Inr []"
| "map_err f (x # xs) =
     (case f x of
        Inl e \<Rightarrow> Inl e
      | Inr y \<Rightarrow> (case map_err f xs of Inl e \<Rightarrow> Inl e | Inr ys \<Rightarrow> Inr (y # ys)))"

text \<open>\<^verbatim>\<open>v[k]\<close> with a string key: only a dict can be subscripted by a string.\<close>

definition subscript :: "json \<Rightarrow> string \<Rightarrow> py_error + json" where
  "subscript v k =
     (case v of
        JObj kvs \<Rightarrow> (case map_of kvs k of Some x \<Rightarrow> Inr x | None \<Rightarrow> Inl KeyError)
      | _ \<Rightarrow> Inl TypeError)"

text \<open>\<^verbatim>\<open>v.get(k, d)\<close>: only a dict has the method.\<close>

definition py_get :: "json \<Rightarrow> string \<Rightarrow> json \<Rightarrow> py_error + json" where
  "py_get v k d =
     (case v of
        JObj kvs \<Rightarrow> Inr (case map_of kvs k of Some x \<Rightarrow> x | None \<Rightarrow> d)
      | _ \<Rightarrow> Inl AttributeError)"

text \<open>
  \<^verbatim>\<open>for x in v\<close>: a list gives its elements, a dict its keys, a string its characters;
  nothing else can be iterated.
\<close>

definition py_iter :: "json \<Rightarrow> py_error + json list" where
  "py_iter v =
     (case v of
        JArr xs \<Rightarrow> Inr xs
      | JObj kvs \<Rightarrow> Inr (map (\<lambda>kv. JStr (fst kv)) kvs)
      | JStr s \<Rightarrow> Inr (map (\<lambda>c. JStr [c]) s)
      | _ \<Rightarrow> Inl TypeError)"

text \<open>\<^verbatim>\<open>needle in hay\<close> on two strings: \<open>needle\<close> occurs as a contiguous part.\<close>

fun py_substring :: "string \<Rightarrow> string \<Rightarrow> bool" where
  "py_substring needle [] = (needle = [])"
| "py_substring needle (c # cs) = (prefix needle (c # cs) \<or> py_substring needle cs)"

text \<open>\<^verbatim>\<open>k in v\<close> for a string \<open>k\<close>.\<close>

definition py_in :: "string \<Rightarrow> json \<Rightarrow> py_error + bool" where
  "py_in k v =
     (case v of
        JObj kvs \<Rightarrow> Inr (map_of kvs k \<noteq> None)
      | JArr xs \<Rightarrow> Inr (JStr k \<in> set xs)
      | JStr s \<Rightarrow> Inr (py_substring k s)
      | _ \<Rightarrow> Inl TypeError)"

text \<open>\<^verbatim>\<open>sep.join(xs)\<close> on strings.\<close>

fun join :: "string \<Rightarrow> string list \<Rightarrow> string" where
  "join sep [] = []"
| "join sep [x] = x"
| "join sep (x # y # ys) = x @ sep @ join sep (y # ys)"

fun as_str :: "json \<Rightarrow> py_error + string" where
  "as_str (JStr s) = Inr s"
| "as_str _ = Inl TypeError"

text \<open>
  \<^verbatim>\<open>sep.join(gen)\<close> on values: the generator has been run to its end before; an element
  that is not a string raises \<open>TypeError\<close>.
\<close>

definition py_join :: "string \<Rightarrow> json list \<Rightarrow> py_error + string" where
  "py_join sep vs = bind_err (map_err as_str vs) (\<lambda>ss. Inr (join sep ss))"

text \<open>Decimal digits of an integer, as \<^verbatim>\<open>str\<close> prints them.\<close>

fun dec_nat :: "nat \<Rightarrow> string" where
  "dec_nat n =
     (if n < 10 then [''0123456789'' ! n]
      else dec_nat (n div 10) @ [''0123456789'' ! (n mod 10)])"

declare dec_nat.simps [simp del]

definition dec_int :: "int \<Rightarrow> string" where
  "dec_int i = (if i < 0 then CHR ''-'' # dec_nat (nat (- i)) else dec_nat (nat i))"

section \<open>What the script takes from its platform\<close>

text \<open>
  The interpreter, the file system and the \<^verbatim>\<open>tabulate\<close> package are not code of the
  script. They are the fields of one record:
  \<^item> \<open>set_order\<close>: the order in which a \<^verbatim>\<open>set\<close> of strings is enumerated, given its
    members in insertion order (hash order: any permutation);
  \<^item> \<open>str_other\<close>: \<^verbatim>\<open>str\<close> of a float, a list or a dict;
  \<^item> \<open>path_exists\<close>, \<open>makedirs\<close>, \<open>listdir\<close>: \<^verbatim>\<open>os.path.exists\<close>,
    \<^verbatim>\<open>os.makedirs\<close>, \<^verbatim>\<open>os.listdir\<close>;
  \<^item> \<open>open_read\<close>: opening a file for reading and reading its text;
  \<^item> \<open>json_loads\<close>: the JSON parser on that text;
  \<^item> \<open>open_write\<close>: opening a file for writing (\<open>None\<close>: no exception);
  \<^item> \<open>tabulate\<close>: \<^verbatim>\<open>tabulate(rows, headers, tablefmt="pipe")\<close>, which may
    raise.
\<close>

record env =
  set_order :: "string list \<Rightarrow> string list"
  str_other :: "json \<Rightarrow> string"
  path_exists :: "string \<Rightarrow> bool"
  makedirs :: "string \<Rightarrow> py_error option"
  listdir :: "string \<Rightarrow> py_error + string list"
  open_read :: "string \<Rightarrow> py_error + string"
  json_loads :: "string \<Rightarrow> py_error + json"
  open_write :: "string \<Rightarrow> py_error option"
  tabulate :: "json list list \<Rightarrow> string list \<Rightarrow> py_error + string"

text \<open>Set enumeration neither loses, adds nor repeats a member.\<close>

definition enumerates :: "(string list \<Rightarrow> string list) \<Rightarrow> bool" where
  "enumerates f = (\<forall>xs. distinct xs \<longrightarrow> distinct (f xs) \<and> set (f xs) = set xs)"

text \<open>\<^verbatim>\<open>str(v)\<close>.\<close>

definition py_str :: "env \<Rightarrow> json \<Rightarrow> string" where
  "py_str env v =
     (case v of
        JStr s \<Rightarrow> s
      | JInt i \<Rightarrow> dec_int i
      | JBool b \<Rightarrow> (if b then ''True'' else ''False'')
      | JNull \<Rightarrow> ''None''
      | _ \<Rightarrow> str_other env v)"

text \<open>\<^verbatim>\<open>s.add(x)\<close> on a set kept as the list of its members in insertion order.\<close>

definition set_add :: "string \<Rightarrow> string list \<Rightarrow> string list" where
  "set_add x s = (if x \<in> set s then s else s @ [x])"

section \<open>The extractor: \<^verbatim>\<open>extract_ingress_info\<close>\<close>

text \<open>\<^verbatim>\<open>item['metadata'][k]\<close>\<close>

definition metadata_field :: "json \<Rightarrow> string \<Rightarrow> py_error + json" where
  "metadata_field item k = bind_err (subscript item ''metadata'') (\<lambda>metadata. subscript metadata k)"

text \<open>\<^verbatim>\<open>item.get('spec', {}).get('rules', [])\<close>, iterated.\<close>

definition item_rules :: "json \<Rightarrow> py_error + json list" where
  "item_rules item =
     bind_err (py_get item ''spec'' (JObj [])) (\<lambda>spec.
     bind_err (py_get spec ''rules'' (JArr [])) py_iter)"

text \<open>
  \<^verbatim>\<open>", ".join(rule.get('host', 'N/A') for rule in item.get('spec', {}).get('rules', []))\<close>
\<close>

definition item_hosts :: "json \<Rightarrow> py_error + string" where
  "item_hosts item =
     bind_err (item_rules item) (\<lambda>rules.
     bind_err (map_err (\<lambda>rule. py_get rule ''host'' (JStr ''N/A'')) rules)
       (py_join '', ''))"

text \<open>\<^verbatim>\<open>item.get('status', {}).get('loadBalancer', {}).get('ingress', [])\<close>, iterated.\<close>

definition item_lbs :: "json \<Rightarrow> py_error + json list" where
  "item_lbs item =
     bind_err (py_get item ''status'' (JObj [])) (\<lambda>status.
     bind_err (py_get status ''loadBalancer'' (JObj [])) (\<lambda>lb.
     bind_err (py_get lb ''ingress'' (JArr [])) py_iter))"

definition item_address :: "json \<Rightarrow> py_error + string" where
  "item_address item =
     bind_err (item_lbs item) (\<lambda>lbs.
     bind_err (map_err (\<lambda>lb. py_get lb ''ip'' (JStr ''N/A'')) lbs)
       (py_join '', ''))"

text \<open>\<^verbatim>\<open>'tls' in item.get('spec', {})\<close>\<close>

definition item_has_tls :: "json \<Rightarrow> py_error + bool" where
  "item_has_tls item = bind_err (py_get item ''spec'' (JObj [])) (py_in ''tls'')"

text \<open>\<^verbatim>\<open>rule.get('http', {}).get('paths', [])\<close>, iterated.\<close>

definition rule_paths :: "json \<Rightarrow> py_error + json list" where
  "rule_paths rule =
     bind_err (py_get rule ''http'' (JObj [])) (\<lambda>http.
     bind_err (py_get http ''paths'' (JArr [])) py_iter)"

text \<open>
  \<^verbatim>\<open>path.get('backend', {}).get('service', {}).get('port', {}).get('number', '80')\<close>
\<close>

definition path_service_port :: "json \<Rightarrow> py_error + json" where
  "path_service_port path =
     bind_err (py_get path ''backend'' (JObj [])) (\<lambda>backend.
     bind_err (py_get backend ''service'' (JObj [])) (\<lambda>service.
     bind_err (py_get service ''port'' (JObj [])) (\<lambda>port.
     py_get port ''number'' (JStr ''80''))))"

text \<open>The inner and the outer loop over the paths of the rules; \<open>ports\<close> is the set.\<close>

fun paths_loop :: "env \<Rightarrow> json list \<Rightarrow> string list \<Rightarrow> py_error + string list" where
  "paths_loop env [] ports = Inr ports"
| "paths_loop env (path # paths) ports =
     bind_err (path_service_port path) (\<lambda>service_port.
     paths_loop env paths (set_add (py_str env service_port) ports))"

fun rules_loop :: "env \<Rightarrow> json list \<Rightarrow> string list \<Rightarrow> py_error + string list" where
  "rules_loop env [] ports = Inr ports"
| "rules_loop env (rule # rules) ports =
     bind_err (rule_paths rule) (\<lambda>paths.
     bind_err (paths_loop env paths ports) (rules_loop env rules))"

text \<open>Lines 52 to 60: the set of ports and the string made of it.\<close>

definition item_ports :: "env \<Rightarrow> json \<Rightarrow> py_error + string list" where
  "item_ports env item =
     bind_err (item_has_tls item) (\<lambda>tls.
     bind_err (item_rules item) (\<lambda>rules.
     rules_loop env rules (if tls then set_add ''443'' [] else [])))"

definition ports_to_str :: "env \<Rightarrow> string list \<Rightarrow> string" where
  "ports_to_str env ports = (if ports \<noteq> [] then join '', '' (set_order env ports) else ''80'')"

definition item_ports_str :: "env \<Rightarrow> json \<Rightarrow> py_error + string" where
  "item_ports_str env item = bind_err (item_ports env item) (\<lambda>ports. Inr (ports_to_str env ports))"

text \<open>
  What \<^verbatim>\<open>logging\<close> receives: the information line with the namespace and the name
  of the item, and the three warnings with its name and its namespace.
\<close>

datatype log_record =
    Info_extracting json json
  | Warn_missing_hosts json json
  | Warn_missing_address json json
  | Warn_missing_ports json json

text \<open>
  The body of the loop of \<^verbatim>\<open>extract_ingress_info\<close> for one item: the log records it
  emits, and the row it appends or the exception it raises.
\<close>

definition extract_item :: "env \<Rightarrow> json \<Rightarrow> log_record list \<times> (py_error + json list)" where
  "extract_item env item =
     (case metadata_field item ''namespace'' of
        Inl e \<Rightarrow> ([], Inl e)
      | Inr namespace \<Rightarrow>
     (case metadata_field item ''name'' of
        Inl e \<Rightarrow> ([], Inl e)
      | Inr name \<Rightarrow>
     (let log1 = [Info_extracting namespace name] in
     (case item_hosts item of
        Inl e \<Rightarrow> (log1, Inl e)
      | Inr hosts \<Rightarrow>
     (let log2 = log1 @ (if py_substring ''N/A'' hosts \<or> hosts = []
                         then [Warn_missing_hosts name namespace] else []) in
     (case item_address item of
        Inl e \<Rightarrow> (log2, Inl e)
      | Inr address \<Rightarrow>
     (let log3 = log2 @ (if address = []
                         then [Warn_missing_address name namespace] else []) in
     (case item_ports_str env item of
        Inl e \<Rightarrow> (log3, Inl e)
      | Inr ports_str \<Rightarrow>
     (let log4 = log3 @ (if ports_str = []
                         then [Warn_missing_ports name namespace] else []) in
      (log4, Inr [namespace, name, JStr hosts, JStr address, JStr ports_str]))))))))))"

text \<open>The loop, with the log so far and \<^verbatim>\<open>ingress_info\<close>.\<close>

fun extract_loop ::
  "env \<Rightarrow> json list \<Rightarrow> log_record list \<Rightarrow> json list list
     \<Rightarrow> log_record list \<times> (py_error + json list list)" where
  "extract_loop env [] lg ingress_info = (lg, Inr ingress_info)"
| "extract_loop env (item # items) lg ingress_info =
     (case extract_item env item of
        (l, Inl e) \<Rightarrow> (lg @ l, Inl e)
      | (l, Inr row) \<Rightarrow> extract_loop env items (lg @ l) (ingress_info @ [row]))"

definition extract_ingress_info ::
  "env \<Rightarrow> json \<Rightarrow> log_record list \<times> (py_error + json list list)" where
  "extract_ingress_info env json_data =
     (case bind_err (subscript json_data ''items'') py_iter of
        Inl e \<Rightarrow> ([], Inl e)
      | Inr items \<Rightarrow> extract_loop env items [] [])"

section \<open>The reporter: \<^verbatim>\<open>generate_markdown_table\<close>\<close>

text \<open>
  What the script prints on the console, one constructor for each \<^verbatim>\<open>print\<close>:
  \<^item> \<open>Created c\<close>: \<^verbatim>\<open>Markdown file for cluster 'c' created.\<close>
  \<^item> \<open>Missed_clusters ms\<close>: the warning that the expected clusters \<open>ms\<close>, joined
    with \<open>", "\<close> in the order the set enumerates them, were not processed;
  \<^item> \<open>All_processed\<close>: \<^verbatim>\<open>All expected clusters were processed.\<close>
  \<^item> \<open>Summary_header\<close>: \<^verbatim>\<open>Summary of Ingresses with Issues:\<close>
  \<^item> \<open>Hosts_missing c ns n h\<close>: the line of the summary for cluster \<open>c\<close>,
    namespace \<open>ns\<close>, name \<open>n\<close> and hosts \<open>h\<close>;
  \<^item> \<open>Logging_hint\<close>: the closing notice about the option \<^verbatim>\<open>-dl\<close>;
  \<^item> \<open>Directory_missing d\<close>: the driver's message that the directory \<open>d\<close> does
    not exist.
\<close>

datatype console_line =
    Created string
  | Missed_clusters "string list"
  | All_processed
  | Summary_header
  | Hosts_missing string json json string
  | Logging_hint
  | Directory_missing string

text \<open>
  The state of a run: the set \<^verbatim>\<open>processed_clusters\<close>, the files written so far (path to
  content), the console and the log.
\<close>

record run_state =
  processed_clusters :: "string list"
  files :: "string \<Rightarrow> string option"
  console :: "console_line list"
  logged :: "log_record list"

definition headers :: "string list" where
  "headers = [''Namespace'', ''Name'', ''Hosts'', ''Address'', ''Ports'']"

definition markdown_content :: "env \<Rightarrow> json list list \<Rightarrow> string \<Rightarrow> py_error + string" where
  "markdown_content env ingress_info cluster_name =
     bind_err (tabulate env ingress_info headers) (\<lambda>table.
     Inr (''# Ingress Summary for Cluster: '' @ cluster_name @ [CHR 0x0A, CHR 0x0A]
            @ table @ [CHR 0x0A]))"

text \<open>\<^verbatim>\<open>os.path.join(a, b)\<close> on POSIX.\<close>

definition os_path_join :: "string \<Rightarrow> string \<Rightarrow> string" where
  "os_path_join a b =
     (if prefix ''/'' b then b
      else if a = [] \<or> suffix ''/'' a then a @ b
      else a @ ''/'' @ b)"

text \<open>
  Opening with mode \<^verbatim>\<open>'w'\<close> replaces what the path held; the write is one step of the
  model.
\<close>

definition generate_markdown_table ::
  "env \<Rightarrow> json list list \<Rightarrow> string \<Rightarrow> string \<Rightarrow> run_state \<Rightarrow> run_state \<times> py_error option" where
  "generate_markdown_table env ingress_info cluster_name output_dir s =
     (case markdown_content env ingress_info cluster_name of
        Inl e \<Rightarrow> (s, Some e)
      | Inr markdown \<Rightarrow>
          (let output_file = os_path_join output_dir (cluster_name @ ''_ingress.md'')
           in case open_write env output_file of
                Some e \<Rightarrow> (s, Some e)
              | None \<Rightarrow>
                  (s\<lparr>files := (files s)(output_file \<mapsto> markdown),
                     console := console s @ [Created cluster_name]\<rparr>, None)))"

section \<open>The loader and the orchestrator\<close>

definition read_json_file :: "env \<Rightarrow> string \<Rightarrow> py_error + json" where
  "read_json_file env file_path = bind_err (open_read env file_path) (json_loads env)"

definition EXPECTED_CLUSTERS :: "string list" where
  "EXPECTED_CLUSTERS = set_add ''cluster2'' (set_add ''cluster1'' [])"

text \<open>\<^verbatim>\<open>s.split(sep)\<close> for a separator of one character: never the empty list.\<close>

fun py_split :: "char \<Rightarrow> string \<Rightarrow> string list" where
  "py_split sep [] = [[]]"
| "py_split sep (c # cs) =
     (if c = sep then [] # py_split sep cs
      else (case py_split sep cs of [] \<Rightarrow> [[c]] | w # ws \<Rightarrow> (c # w) # ws))"

text \<open>\<^verbatim>\<open>filename.split("_")[0]\<close> and \<^verbatim>\<open>cluster_name.split('-')[0]\<close>\<close>

definition cluster_name_of :: "string \<Rightarrow> string" where
  "cluster_name_of filename = hd (py_split (CHR ''_'') filename)"

definition cluster_prefix_of :: "string \<Rightarrow> string" where
  "cluster_prefix_of cluster_name = hd (py_split (CHR ''-'') cluster_name)"

text \<open>\<^verbatim>\<open>a - b\<close> on sets.\<close>

definition set_diff :: "string list \<Rightarrow> string list \<Rightarrow> string list" where
  "set_diff a b = filter (\<lambda>x. x \<notin> set b) a"

text \<open>
  The first loop over the directory listing. The file system is read as it was when the
  run began: the reports the run writes do not end with \<^verbatim>\<open>_ingress.json\<close>.
\<close>

fun first_pass ::
  "env \<Rightarrow> string \<Rightarrow> string \<Rightarrow> string list \<Rightarrow> run_state \<Rightarrow> run_state \<times> py_error option" where
  "first_pass env info_cache_dir results_dir [] s = (s, None)"
| "first_pass env info_cache_dir results_dir (filename # rest) s =
     (if suffix ''_ingress.json'' filename then
        (let cluster_name = cluster_name_of filename;
             file_path = os_path_join info_cache_dir filename;
             cluster_prefix = cluster_prefix_of cluster_name;
             s1 = s\<lparr>processed_clusters := set_add cluster_prefix (processed_clusters s)\<rparr>
         in case read_json_file env file_path of
              Inl e \<Rightarrow> (s1, Some e)
            | Inr json_data \<Rightarrow>
                (case extract_ingress_info env json_data of
                   (lg, Inl e) \<Rightarrow> (s1\<lparr>logged := logged s1 @ lg\<rparr>, Some e)
                 | (lg, Inr ingress_info) \<Rightarrow>
                     (case generate_markdown_table env ingress_info cluster_name results_dir
                             (s1\<lparr>logged := logged s1 @ lg\<rparr>) of
                        (s2, Some e) \<Rightarrow> (s2, Some e)
                      | (s2, None) \<Rightarrow> first_pass env info_cache_dir results_dir rest s2)))
      else first_pass env info_cache_dir results_dir rest s)"

text \<open>The summary of ingresses with issues: the items of one file, then the files.\<close>

fun summary_items :: "string \<Rightarrow> json list \<Rightarrow> run_state \<Rightarrow> run_state \<times> py_error option" where
  "summary_items cluster_name [] s = (s, None)"
| "summary_items cluster_name (item # items) s =
     (case metadata_field item ''namespace'' of
        Inl e \<Rightarrow> (s, Some e)
      | Inr namespace \<Rightarrow>
     (case metadata_field item ''name'' of
        Inl e \<Rightarrow> (s, Some e)
      | Inr name \<Rightarrow>
     (case item_hosts item of
        Inl e \<Rightarrow> (s, Some e)
      | Inr hosts \<Rightarrow>
          summary_items cluster_name items
            (if py_substring ''N/A'' hosts \<or> hosts = []
             then s\<lparr>console := console s @ [Hosts_missing cluster_name namespace name hosts]\<rparr>
             else s))))"

fun second_pass ::
  "env \<Rightarrow> string \<Rightarrow> string list \<Rightarrow> run_state \<Rightarrow> run_state \<times> py_error option" where
  "second_pass env info_cache_dir [] s = (s, None)"
| "second_pass env info_cache_dir (filename # rest) s =
     (if suffix ''_ingress.json'' filename then
        (let cluster_name = cluster_name_of filename;
             file_path = os_path_join info_cache_dir filename
         in case bind_err (read_json_file env file_path)
                   (\<lambda>json_data. bind_err (subscript json_data ''items'') py_iter) of
              Inl e \<Rightarrow> (s, Some e)
            | Inr items \<Rightarrow>
                (case summary_items cluster_name items s of
                   (s1, Some e) \<Rightarrow> (s1, Some e)
                 | (s1, None) \<Rightarrow> second_pass env info_cache_dir rest s1))
      else second_pass env info_cache_dir rest s)"

definition start :: run_state where
  "start = \<lparr>processed_clusters = [], files = Map.empty, console = [], logged = []\<rparr>"

definition report_missed :: "env \<Rightarrow> run_state \<Rightarrow> run_state" where
  "report_missed env s =
     (let missed_clusters = set_diff EXPECTED_CLUSTERS (processed_clusters s)
      in s\<lparr>console := console s @
             [if missed_clusters \<noteq> [] then Missed_clusters (set_order env missed_clusters)
              else All_processed]\<rparr>)"

definition process_all_clusters :: "env \<Rightarrow> string \<Rightarrow> string \<Rightarrow> run_state \<times> py_error option" where
  "process_all_clusters env info_cache_dir results_dir =
     (case (if \<not> path_exists env results_dir then makedirs env results_dir else None) of
        Some e \<Rightarrow> (start, Some e)
      | None \<Rightarrow>
     (case listdir env info_cache_dir of
        Inl e \<Rightarrow> (start, Some e)
      | Inr names \<Rightarrow>
     (case first_pass env info_cache_dir results_dir names start of
        (s1, Some e) \<Rightarrow> (s1, Some e)
      | (s1, None) \<Rightarrow>
     (let s2 = report_missed env s1;
          s3 = s2\<lparr>console := console s2 @ [Summary_header]\<rparr>
      in case listdir env info_cache_dir of
           Inl e \<Rightarrow> (s3, Some e)
         | Inr names2 \<Rightarrow>
        (case second_pass env info_cache_dir names2 s3 of
           (s4, Some e) \<Rightarrow> (s4, Some e)
         | (s4, None) \<Rightarrow> (s4\<lparr>console := console s4 @ [Logging_hint]\<rparr>, None))))))"

text \<open>
  The driver under \<^verbatim>\<open>__main__\<close>; \<open>today_date\<close> is the clock's date as
  \<^verbatim>\<open>%Y%m%d\<close>. An exception the \<^verbatim>\<open>except\<close> clause does not name ends the process.
\<close>

datatype outcome = Returned | Uncaught py_error

definition main :: "env \<Rightarrow> string \<Rightarrow> run_state \<times> outcome" where
  "main env today_date =
     (let INFO_CACHE_DIR = ''info_cache_'' @ today_date;
          RESULTS_DIR = ''results''
      in case process_all_clusters env INFO_CACHE_DIR RESULTS_DIR of
           (s, None) \<Rightarrow> (s, Returned)
         | (s, Some e) \<Rightarrow>
             (if e = FileNotFoundError
              then (s\<lparr>console := console s @ [Directory_missing INFO_CACHE_DIR]\<rparr>, Returned)
              else (s, Uncaught e)))"

section \<open>Vocabulary of the statements\<close>

text \<open>Which warning a log record is.\<close>

fun is_missing_hosts :: "log_record \<Rightarrow> bool" where
  "is_missing_hosts (Warn_missing_hosts name namespace) = True"
| "is_missing_hosts _ = False"

fun is_missing_address :: "log_record \<Rightarrow> bool" where
  "is_missing_address (Warn_missing_address name namespace) = True"
| "is_missing_address _ = False"

fun is_missing_ports :: "log_record \<Rightarrow> bool" where
  "is_missing_ports (Warn_missing_ports name namespace) = True"
| "is_missing_ports _ = False"

fun is_str :: "json \<Rightarrow> bool" where
  "is_str (JStr s) = True"
| "is_str _ = False"

text \<open>The log records of one item whose five fields are known.\<close>

definition item_log :: "json \<Rightarrow> json \<Rightarrow> string \<Rightarrow> string \<Rightarrow> string \<Rightarrow> log_record list" where
  "item_log namespace name hosts address ports_str =
     [Info_extracting namespace name]
       @ (if py_substring ''N/A'' hosts \<or> hosts = [] then [Warn_missing_hosts name namespace] else [])
       @ (if address = [] then [Warn_missing_address name namespace] else [])
       @ (if ports_str = [] then [Warn_missing_ports name namespace] else [])"

text \<open>
  What an element of a rule list or of a load-balancer list gives to the joined string:
  the string under its key \<open>k\<close>, or the placeholder when it is a dict without that key.
\<close>

definition contributes :: "string \<Rightarrow> json \<Rightarrow> string \<Rightarrow> bool" where
  "contributes k element s =
     (case subscript element k of
        Inr v \<Rightarrow> v = JStr s
      | Inl e \<Rightarrow> e = KeyError \<and> s = ''N/A'')"

text \<open>
  The values \<^verbatim>\<open>service_port\<close> takes while the two loops over the paths run to their
  end, in the order of the loops.
\<close>

definition item_service_ports :: "json \<Rightarrow> py_error + json list" where
  "item_service_ports item =
     bind_err (item_rules item) (\<lambda>rules.
     bind_err (map_err rule_paths rules) (\<lambda>paths.
     map_err path_service_port (concat paths)))"

text \<open>
  What Python guarantees of the platform's two interpreter fields: a set is enumerated
  without loss or repetition, and a float, a list and a dict never print as nothing.
\<close>

definition python_like :: "env \<Rightarrow> bool" where
  "python_like env = (enumerates (set_order env) \<and> (\<forall>v. str_other env v \<noteq> []))"

text \<open>The clusters of the \<open>Created\<close> lines of a console, in order.\<close>

fun created_clusters :: "console_line list \<Rightarrow> string list" where
  "created_clusters [] = []"
| "created_clusters (Created c # ls) = c # created_clusters ls"
| "created_clusters (_ # ls) = created_clusters ls"

text \<open>
  A platform to run examples on: sets enumerate in insertion order, the directory
  holds nothing, every write succeeds, and a table is the number of its rows.
\<close>

definition plain_env :: env where
  "plain_env =
     \<lparr>set_order = (\<lambda>xs. xs),
      str_other = (\<lambda>v. ''<value>''),
      path_exists = (\<lambda>p. True),
      makedirs = (\<lambda>p. None),
      listdir = (\<lambda>d. Inr []),
      open_read = (\<lambda>p. Inl FileNotFoundError),
      json_loads = (\<lambda>t. Inl JSONDecodeError),
      open_write = (\<lambda>p. None),
      tabulate = (\<lambda>rows hdrs. Inr (dec_nat (length rows)))\<rparr>"

text \<open>Example items: two rules with hosts and three paths on two ports, one address.\<close>

definition item_two_hosts :: json where
  "item_two_hosts =
     JObj [(''metadata'', JObj [(''namespace'', JStr ''web''), (''name'', JStr ''shop'')]),
           (''spec'', JObj [(''rules'', JArr
              [JObj [(''host'', JStr ''a.example''),
                     (''http'', JObj [(''paths'', JArr
                        [JObj [(''backend'', JObj [(''service'', JObj [(''port'', JObj [(''number'', JInt 8080)])])])],
                         JObj [(''backend'', JObj [(''service'', JObj [(''port'', JObj [(''number'', JInt 9090)])])])],
                         JObj [(''backend'', JObj [(''service'', JObj [(''port'', JObj [(''number'', JInt 8080)])])])]])])],
               JObj [(''host'', JStr ''b.example'')]])]),
           (''status'', JObj [(''loadBalancer'', JObj [(''ingress'', JArr [JObj [(''ip'', JStr ''10.0.0.1'')]])])])]"

text \<open>Nothing but the metadata.\<close>

definition item_bare :: json where
  "item_bare = JObj [(''metadata'', JObj [(''namespace'', JStr ''web''), (''name'', JStr ''bare'')])]"

text \<open>A TLS section, one rule without a host, one load-balancer entry without an ip.\<close>

definition item_tls_placeholder :: json where
  "item_tls_placeholder =
     JObj [(''metadata'', JObj [(''namespace'', JStr ''web''), (''name'', JStr ''secure'')]),
           (''spec'', JObj [(''tls'', JArr []), (''rules'', JArr [JObj []])]),
           (''status'', JObj [(''loadBalancer'', JObj [(''ingress'', JArr [JObj []])])])]"

text \<open>One rule whose host is the empty string and whose only path has the port number \<^verbatim>\<open>""\<close>.\<close>

definition item_empty_port :: json where
  "item_empty_port =
     JObj [(''metadata'', JObj [(''namespace'', JStr ''web''), (''name'', JStr ''odd'')]),
           (''spec'', JObj [(''rules'', JArr
              [JObj [(''host'', JStr []),
                     (''http'', JObj [(''paths'', JArr
                        [JObj [(''backend'', JObj [(''service'', JObj [(''port'', JObj [(''number'', JStr [])])])])]])])]])])]"

text \<open>A namespace that is \<^verbatim>\<open>null\<close>.\<close>

definition item_null_namespace :: json where
  "item_null_namespace = JObj [(''metadata'', JObj [(''namespace'', JNull), (''name'', JStr ''x'')])]"

text \<open>No rules, and a status that is a string: reading the address raises.\<close>

definition item_bad_status :: json where
  "item_bad_status =
     JObj [(''metadata'', JObj [(''namespace'', JStr ''web''), (''name'', JStr ''broken'')]),
           (''status'', JStr ''pending'')]"

text \<open>The path of the report of a snapshot file.\<close>

definition report_path :: "string \<Rightarrow> string \<Rightarrow> string" where
  "report_path results_dir filename =
     os_path_join results_dir (cluster_name_of filename @ ''_ingress.md'')"

text \<open>The state after one snapshot has been loaded, extracted and reported.\<close>

definition after_file ::
  "string \<Rightarrow> string \<Rightarrow> log_record list \<Rightarrow> string \<Rightarrow> run_state \<Rightarrow> run_state" where
  "after_file results_dir filename lg markdown s =
     s\<lparr>processed_clusters :=
           set_add (cluster_prefix_of (cluster_name_of filename)) (processed_clusters s),
       logged := logged s @ lg,
       files := (files s)(report_path results_dir filename \<mapsto> markdown),
       console := console s @ [Created (cluster_name_of filename)]\<rparr>"

text \<open>The lines of the summary of ingresses with issues.\<close>

fun is_issue_line :: "console_line \<Rightarrow> bool" where
  "is_issue_line (Hosts_missing c n m h) = True"
| "is_issue_line _ = False"

text \<open>
  A directory with the snapshots of two clusters and one other file; a directory with
  two snapshots whose names begin alike; a directory whose only entry cannot be opened, as
  a symbolic link without a target.
\<close>

definition two_clusters_env :: env where
  "two_clusters_env =
     plain_env
       \<lparr>listdir := (\<lambda>d. if d = ''info_cache_20240101''
                        then Inr [''cluster1-a_ingress.json'', ''notes.txt'', ''cluster2-b_ingress.json'']
                        else Inl FileNotFoundError),
        open_read := (\<lambda>p. if p = ''info_cache_20240101/cluster1-a_ingress.json'' then Inr ''one''
                          else if p = ''info_cache_20240101/cluster2-b_ingress.json'' then Inr ''two''
                          else Inl FileNotFoundError),
        json_loads := (\<lambda>t. if t = ''one'' then Inr (JObj [(''items'', JArr [item_bare])])
                           else if t = ''two'' then Inr (JObj [(''items'', JArr [])])
                           else Inl JSONDecodeError)\<rparr>"

definition twin_env :: env where
  "twin_env =
     plain_env
       \<lparr>listdir := (\<lambda>d. if d = ''info_cache_20240101''
                        then Inr [''a_ingress.json'', ''a_b_ingress.json'']
                        else Inl FileNotFoundError),
        open_read := (\<lambda>p. if p = ''info_cache_20240101/a_ingress.json'' then Inr ''one''
                          else if p = ''info_cache_20240101/a_b_ingress.json'' then Inr ''two''
                          else Inl FileNotFoundError),
        json_loads := (\<lambda>t. if t = ''one'' then Inr (JObj [(''items'', JArr [item_bare])])
                           else if t = ''two'' then Inr (JObj [(''items'', JArr [])])
                           else Inl JSONDecodeError)\<rparr>"

definition dangling_env :: env where
  "dangling_env =
     plain_env
       \<lparr>listdir := (\<lambda>d. if d = ''info_cache_20240101'' then Inr [''a_ingress.json'']
                        else Inl FileNotFoundError)\<rparr>"

section \<open>Exceptions and generators\<close>

lemma bind_err_Inl [simp]: "bind_err (Inl e) f = Inl e"
  by (simp add: bind_err_def)

lemma bind_err_Inr [simp]: "bind_err (Inr x) f = f x"
  by (simp add: bind_err_def)

lemma bind_err_eq_Inr: "bind_err m f = Inr y \<longleftrightarrow> (\<exists>x. m = Inr x \<and> f x = Inr y)"
  by (cases m) simp_all

lemma map_err_Cons_eq_Inr:
  "map_err f (x # xs) = Inr ys \<longleftrightarrow> (\<exists>y ys'. f x = Inr y \<and> map_err f xs = Inr ys' \<and> ys = y # ys')"
  by (auto split: sum.splits)

lemma map_err_eq_Inr: "map_err f xs = Inr ys \<longleftrightarrow> list_all2 (\<lambda>x y. f x = Inr y) xs ys"
proof (induction xs arbitrary: ys)
  case Nil
  then show ?case by auto
next
  case (Cons x xs)
  show ?case
    unfolding map_err_Cons_eq_Inr list_all2_Cons1 Cons.IH by blast
qed

lemma as_str_eq_Inr: "as_str v = Inr s \<longleftrightarrow> v = JStr s"
  by (cases v) auto

lemma list_all2_as_str: "list_all2 (\<lambda>x y. as_str x = Inr y) vs ss \<longleftrightarrow> vs = map JStr ss"
  by (induction vs arbitrary: ss) (auto simp: list_all2_Cons1 as_str_eq_Inr)

lemma py_join_eq_Inr: "py_join sep vs = Inr s \<longleftrightarrow> (\<exists>ss. vs = map JStr ss \<and> s = join sep ss)"
  by (auto simp: py_join_def bind_err_eq_Inr map_err_eq_Inr list_all2_as_str)

lemma join_eq_Nil: "join sep ss = [] \<longleftrightarrow> ss = [] \<or> ss = [[]] \<or> (sep = [] \<and> set ss \<subseteq> {[]})"
  by (induction sep ss rule: join.induct) auto

lemma join_comma_eq_Nil: "join '', '' ss = [] \<longleftrightarrow> ss = [] \<or> ss = [[]]"
  by (simp add: join_eq_Nil)

section \<open>One item of the extractor\<close>

text \<open>A row is appended only when every step of the loop body has returned.\<close>

lemma extract_item_rowD:
  assumes "extract_item env item = (lg, Inr row)"
  shows "\<exists>ns nm hosts address ports.
           metadata_field item ''namespace'' = Inr ns \<and>
           metadata_field item ''name'' = Inr nm \<and>
           item_hosts item = Inr hosts \<and> item_address item = Inr address \<and>
           item_ports_str env item = Inr ports \<and>
           row = [ns, nm, JStr hosts, JStr address, JStr ports] \<and>
           lg = item_log ns nm hosts address ports"
proof -
  obtain ns where ns: "metadata_field item ''namespace'' = Inr ns"
    using assms unfolding extract_item_def by (auto split: sum.splits)
  obtain nm where nm: "metadata_field item ''name'' = Inr nm"
    using assms ns unfolding extract_item_def by (auto split: sum.splits)
  obtain hosts where h: "item_hosts item = Inr hosts"
    using assms ns nm unfolding extract_item_def Let_def by (auto split: sum.splits)
  obtain address where a: "item_address item = Inr address"
    using assms ns nm h unfolding extract_item_def Let_def by (auto split: sum.splits)
  obtain ports where p: "item_ports_str env item = Inr ports"
    using assms ns nm h a unfolding extract_item_def Let_def by (auto split: sum.splits)
  have "extract_item env item = (item_log ns nm hosts address ports,
          Inr [ns, nm, JStr hosts, JStr address, JStr ports])"
    unfolding extract_item_def Let_def item_log_def by (simp add: ns nm h a p)
  with assms ns nm h a p show ?thesis by auto
qed

lemma item_log_hosts:
  "list_ex is_missing_hosts (item_log ns nm hosts address ports)
     \<longleftrightarrow> hosts = [] \<or> py_substring ''N/A'' hosts"
  by (auto simp: item_log_def)

lemma item_log_address:
  "list_ex is_missing_address (item_log ns nm hosts address ports) \<longleftrightarrow> address = []"
  by (auto simp: item_log_def)

lemma item_log_ports:
  "list_ex is_missing_ports (item_log ns nm hosts address ports) \<longleftrightarrow> ports = []"
  by (auto simp: item_log_def)

text \<open>The joined string of a generator over a key, element by element.\<close>

lemma keyed_join:
  assumes "bind_err (map_err (\<lambda>x. py_get x k (JStr ''N/A'')) xs) (py_join '', '') = Inr s"
  shows "\<exists>ss. list_all2 (contributes k) xs ss \<and> s = join '', '' ss"
proof -
  from assms obtain ss where
    m: "list_all2 (\<lambda>x y. py_get x k (JStr ''N/A'') = Inr y) xs (map JStr ss)"
    and s: "s = join '', '' ss"
    by (auto simp: bind_err_eq_Inr map_err_eq_Inr py_join_eq_Inr)
  have "py_get x k (JStr ''N/A'') = Inr (JStr t) \<Longrightarrow> contributes k x t" for x t
    by (cases x) (auto simp: py_get_def contributes_def subscript_def split: option.splits)
  with m have "list_all2 (contributes k) xs ss"
    by (simp add: list_all2_map2 list_all2_mono)
  with s show ?thesis by blast
qed

lemma keyed_join_all_present:
  assumes "list_all2 (\<lambda>x h. subscript x k = Inr (JStr h)) xs hs"
  shows "bind_err (map_err (\<lambda>x. py_get x k (JStr ''N/A'')) xs) (py_join '', '') = Inr (join '', '' hs)"
proof -
  have "subscript x k = Inr (JStr h) \<Longrightarrow> py_get x k (JStr ''N/A'') = Inr (JStr h)" for x h
    by (cases x) (auto simp: py_get_def subscript_def split: option.splits)
  with assms have "list_all2 (\<lambda>x y. py_get x k (JStr ''N/A'') = Inr y) xs (map JStr hs)"
    by (simp add: list_all2_map2 list_all2_mono)
  then have "map_err (\<lambda>x. py_get x k (JStr ''N/A'')) xs = Inr (map JStr hs)"
    by (simp add: map_err_eq_Inr)
  moreover have "py_join '', '' (map JStr hs) = Inr (join '', '' hs)"
    unfolding py_join_eq_Inr by blast
  ultimately show ?thesis by simp
qed

section \<open>The example items, run\<close>

lemmas run_defs =
  extract_item_def metadata_field_def item_hosts_def item_address_def item_rules_def item_lbs_def
  item_ports_str_def item_ports_def item_has_tls_def rule_paths_def path_service_port_def
  ports_to_str_def item_service_ports_def
  subscript_def py_get_def py_iter_def py_in_def py_join_def py_str_def set_add_def
  bind_err_def Let_def plain_env_def

lemma dec_int_examples: "dec_int 8080 = ''8080''" "dec_int 9090 = ''9090''"
  by (simp_all add: dec_int_def dec_nat.simps)

lemma run_two_hosts:
  "extract_item plain_env item_two_hosts =
     ([Info_extracting (JStr ''web'') (JStr ''shop'')],
      Inr [JStr ''web'', JStr ''shop'', JStr ''a.example, b.example'', JStr ''10.0.0.1'',
           JStr ''8080, 9090''])"
  by (simp add: item_two_hosts_def run_defs dec_int_examples)

lemma run_bare:
  "extract_item plain_env item_bare =
     ([Info_extracting (JStr ''web'') (JStr ''bare''),
       Warn_missing_hosts (JStr ''bare'') (JStr ''web''),
       Warn_missing_address (JStr ''bare'') (JStr ''web'')],
      Inr [JStr ''web'', JStr ''bare'', JStr [], JStr [], JStr ''80''])"
  by (simp add: item_bare_def run_defs)

lemma run_tls_placeholder:
  "extract_item plain_env item_tls_placeholder =
     ([Info_extracting (JStr ''web'') (JStr ''secure''),
       Warn_missing_hosts (JStr ''secure'') (JStr ''web'')],
      Inr [JStr ''web'', JStr ''secure'', JStr ''N/A'', JStr ''N/A'', JStr ''443''])"
  by (simp add: item_tls_placeholder_def run_defs)

lemma run_empty_port:
  "extract_item plain_env item_empty_port =
     ([Info_extracting (JStr ''web'') (JStr ''odd''),
       Warn_missing_hosts (JStr ''odd'') (JStr ''web''),
       Warn_missing_address (JStr ''odd'') (JStr ''web''),
       Warn_missing_ports (JStr ''odd'') (JStr ''web'')],
      Inr [JStr ''web'', JStr ''odd'', JStr [], JStr [], JStr []])"
  by (simp add: item_empty_port_def run_defs)

lemma run_null_namespace:
  "extract_item plain_env item_null_namespace =
     ([Info_extracting JNull (JStr ''x''),
       Warn_missing_hosts (JStr ''x'') JNull,
       Warn_missing_address (JStr ''x'') JNull],
      Inr [JNull, JStr ''x'', JStr [], JStr [], JStr ''80''])"
  by (simp add: item_null_namespace_def run_defs)

section \<open>Hosts\<close>

text \<open>
  C5. When the rule list of an item is not empty and every rule has a string under
  \<open>host\<close>, the hosts field of the row (its third field) is these strings joined with
  \<open>", "\<close> in the order of the rules; when the rule list is empty, the hosts field is
  the empty string.
\<close>

theorem hosts_in_rule_order:
  assumes "extract_item env item = (lg, Inr row)" and "item_rules item = Inr rules"
  shows "(rules \<noteq> [] \<and> list_all2 (\<lambda>rule h. subscript rule ''host'' = Inr (JStr h)) rules hs
            \<longrightarrow> row ! 2 = JStr (join '', '' hs))
       \<and> (rules = [] \<longrightarrow> row ! 2 = JStr [])"
proof -
  from extract_item_rowD [OF assms(1)] obtain hosts where
    h: "item_hosts item = Inr hosts" and r: "row ! 2 = JStr hosts"
    by auto
  have "hosts = join '', '' hs"
    if "list_all2 (\<lambda>rule h. subscript rule ''host'' = Inr (JStr h)) rules hs"
    using h keyed_join_all_present [OF that] assms(2) by (simp add: item_hosts_def)
  moreover have "hosts = []" if "rules = []"
    using h that assms(2) by (simp add: item_hosts_def py_join_def)
  ultimately show ?thesis using r by simp
qed

theorem hosts_in_rule_order_witness:
  "(\<exists>lg row rules.
      extract_item plain_env item_two_hosts = (lg, Inr row) \<and>
      item_rules item_two_hosts = Inr rules \<and> rules \<noteq> [] \<and>
      list_all2 (\<lambda>rule h. subscript rule ''host'' = Inr (JStr h)) rules [''a.example'', ''b.example''] \<and>
      row ! 2 = JStr ''a.example, b.example'')
   \<and> (\<exists>lg row.
      extract_item plain_env item_bare = (lg, Inr row) \<and>
      item_rules item_bare = Inr [] \<and> row ! 2 = JStr [])"
proof -
  obtain rules where r: "item_rules item_two_hosts = Inr rules" and n: "rules \<noteq> []"
    and a: "list_all2 (\<lambda>rule h. subscript rule ''host'' = Inr (JStr h)) rules [''a.example'', ''b.example'']"
    by (simp add: item_two_hosts_def run_defs)
  from hosts_in_rule_order [OF run_two_hosts r, of "[''a.example'', ''b.example'']"] n a
  have "[JStr ''web'', JStr ''shop'', JStr ''a.example, b.example'', JStr ''10.0.0.1'',
           JStr ''8080, 9090''] ! 2 = JStr ''a.example, b.example''"
    by simp
  with run_two_hosts r n a
  have one: "\<exists>lg row rules.
      extract_item plain_env item_two_hosts = (lg, Inr row) \<and>
      item_rules item_two_hosts = Inr rules \<and> rules \<noteq> [] \<and>
      list_all2 (\<lambda>rule h. subscript rule ''host'' = Inr (JStr h)) rules [''a.example'', ''b.example''] \<and>
      row ! 2 = JStr ''a.example, b.example''"
    by blast
  have e: "item_rules item_bare = Inr []"
    by (simp add: item_bare_def run_defs)
  from hosts_in_rule_order [OF run_bare e]
  have "[JStr ''web'', JStr ''bare'', JStr [], JStr [], JStr ''80''] ! 2 = JStr []"
    by simp
  with run_bare e
  have two: "\<exists>lg row. extract_item plain_env item_bare = (lg, Inr row) \<and>
      item_rules item_bare = Inr [] \<and> row ! 2 = JStr []"
    by blast
  from one two show ?thesis by blast
qed

section \<open>Warnings on hosts and addresses\<close>

text \<open>The log of one item whose namespace and name have been read, step by step.\<close>

lemma extract_item_log:
  assumes "metadata_field item ''namespace'' = Inr ns" and "metadata_field item ''name'' = Inr nm"
  shows "fst (extract_item env item) =
     (case item_hosts item of
        Inl e \<Rightarrow> [Info_extracting ns nm]
      | Inr hosts \<Rightarrow>
          [Info_extracting ns nm]
            @ (if py_substring ''N/A'' hosts \<or> hosts = [] then [Warn_missing_hosts nm ns] else [])
            @ (case item_address item of
                 Inl e \<Rightarrow> []
               | Inr address \<Rightarrow>
                   (if address = [] then [Warn_missing_address nm ns] else [])
                     @ (case item_ports_str env item of
                          Inl e \<Rightarrow> []
                        | Inr ports \<Rightarrow> (if ports = [] then [Warn_missing_ports nm ns] else []))))"
  unfolding extract_item_def Let_def
  by (simp add: assms split: sum.splits)

lemma run_bad_status:
  "extract_item plain_env item_bad_status =
     ([Info_extracting (JStr ''web'') (JStr ''broken''),
       Warn_missing_hosts (JStr ''broken'') (JStr ''web'')],
      Inl AttributeError)"
  by (simp add: item_bad_status_def run_defs)

text \<open>
  C3. For an item whose namespace and name have been read, the missing-hosts warning is
  logged exactly when the hosts are joined (line 38 raises nothing) and the joined
  string is empty or has \<open>N/A\<close> as a substring; the missing-address warning is logged
  exactly when the hosts are joined and the joined address string is empty, so an address
  made of placeholders only logs no warning. This holds whether or not a later step of
  the loop body raises. When the item yields a row, its hosts and address fields are
  these two joined strings.
\<close>

theorem hosts_and_address_warnings:
  assumes "metadata_field item ''namespace'' = Inr ns" and "metadata_field item ''name'' = Inr nm"
  shows "(list_ex is_missing_hosts (fst (extract_item env item)) \<longleftrightarrow>
            (\<exists>hosts. item_hosts item = Inr hosts \<and> (hosts = [] \<or> py_substring ''N/A'' hosts)))
       \<and> (list_ex is_missing_address (fst (extract_item env item)) \<longleftrightarrow>
            (\<exists>hosts. item_hosts item = Inr hosts) \<and> item_address item = Inr [])
       \<and> (\<forall>row. snd (extract_item env item) = Inr row \<longrightarrow>
            (\<exists>hosts address. item_hosts item = Inr hosts \<and> item_address item = Inr address \<and>
               row ! 2 = JStr hosts \<and> row ! 3 = JStr address))"
proof -
  note lg = extract_item_log [OF assms, of env]
  have one: "list_ex is_missing_hosts (fst (extract_item env item)) \<longleftrightarrow>
            (\<exists>hosts. item_hosts item = Inr hosts \<and> (hosts = [] \<or> py_substring ''N/A'' hosts))"
  proof (cases "item_hosts item")
    case (Inl e)
    then show ?thesis by (simp add: lg)
  next
    case h: (Inr hosts)
    show ?thesis
    proof (cases "item_address item")
      case (Inl e)
      with h show ?thesis by (auto simp: lg)
    next
      case a: (Inr address)
      show ?thesis
        by (cases "item_ports_str env item") (auto simp: lg h a)
    qed
  qed
  have two: "list_ex is_missing_address (fst (extract_item env item)) \<longleftrightarrow>
            (\<exists>hosts. item_hosts item = Inr hosts) \<and> item_address item = Inr []"
  proof (cases "item_hosts item")
    case (Inl e)
    then show ?thesis by (simp add: lg)
  next
    case h: (Inr hosts)
    show ?thesis
    proof (cases "item_address item")
      case (Inl e)
      with h show ?thesis by (auto simp: lg)
    next
      case a: (Inr address)
      show ?thesis
        by (cases "item_ports_str env item") (auto simp: lg h a)
    qed
  qed
  have three: "\<exists>hosts address. item_hosts item = Inr hosts \<and> item_address item = Inr address \<and>
               row ! 2 = JStr hosts \<and> row ! 3 = JStr address"
    if "snd (extract_item env item) = Inr row" for row
  proof -
    from that have "extract_item env item = (fst (extract_item env item), Inr row)"
      by (metis prod.collapse)
    from extract_item_rowD [OF this] show ?thesis by auto
  qed
  from one two three show ?thesis by blast
qed

theorem hosts_and_address_warnings_witness:
  "(metadata_field item_tls_placeholder ''namespace'' = Inr (JStr ''web'') \<and>
    metadata_field item_tls_placeholder ''name'' = Inr (JStr ''secure'') \<and>
    item_hosts item_tls_placeholder = Inr ''N/A'' \<and>
    item_address item_tls_placeholder = Inr ''N/A'' \<and>
    list_ex is_missing_hosts (fst (extract_item plain_env item_tls_placeholder)) \<and>
    \<not> list_ex is_missing_address (fst (extract_item plain_env item_tls_placeholder)))
   \<and> (metadata_field item_two_hosts ''namespace'' = Inr (JStr ''web'') \<and>
    metadata_field item_two_hosts ''name'' = Inr (JStr ''shop'') \<and>
    item_hosts item_two_hosts = Inr ''a.example, b.example'' \<and>
    item_address item_two_hosts = Inr ''10.0.0.1'' \<and>
    \<not> list_ex is_missing_hosts (fst (extract_item plain_env item_two_hosts)) \<and>
    \<not> list_ex is_missing_address (fst (extract_item plain_env item_two_hosts)))
   \<and> (metadata_field item_bare ''namespace'' = Inr (JStr ''web'') \<and>
    metadata_field item_bare ''name'' = Inr (JStr ''bare'') \<and>
    item_hosts item_bare = Inr [] \<and> item_address item_bare = Inr [] \<and>
    list_ex is_missing_hosts (fst (extract_item plain_env item_bare)) \<and>
    list_ex is_missing_address (fst (extract_item plain_env item_bare)))
   \<and> (metadata_field item_bad_status ''namespace'' = Inr (JStr ''web'') \<and>
    metadata_field item_bad_status ''name'' = Inr (JStr ''broken'') \<and>
    item_hosts item_bad_status = Inr [] \<and> item_address item_bad_status = Inl AttributeError \<and>
    snd (extract_item plain_env item_bad_status) = Inl AttributeError \<and>
    list_ex is_missing_hosts (fst (extract_item plain_env item_bad_status)) \<and>
    \<not> list_ex is_missing_address (fst (extract_item plain_env item_bad_status)))"
proof -
  have m1: "metadata_field item_tls_placeholder ''namespace'' = Inr (JStr ''web'')"
    "metadata_field item_tls_placeholder ''name'' = Inr (JStr ''secure'')"
    and h1: "item_hosts item_tls_placeholder = Inr ''N/A''"
    and a1: "item_address item_tls_placeholder = Inr ''N/A''"
    by (simp_all add: item_tls_placeholder_def run_defs)
  from hosts_and_address_warnings [OF m1, of plain_env] h1 a1
  have w1: "list_ex is_missing_hosts (fst (extract_item plain_env item_tls_placeholder))"
    "\<not> list_ex is_missing_address (fst (extract_item plain_env item_tls_placeholder))"
    by simp_all
  have m2: "metadata_field item_two_hosts ''namespace'' = Inr (JStr ''web'')"
    "metadata_field item_two_hosts ''name'' = Inr (JStr ''shop'')"
    and h2: "item_hosts item_two_hosts = Inr ''a.example, b.example''"
    and a2: "item_address item_two_hosts = Inr ''10.0.0.1''"
    by (simp_all add: item_two_hosts_def run_defs)
  from hosts_and_address_warnings [OF m2, of plain_env] h2 a2
  have w2: "\<not> list_ex is_missing_hosts (fst (extract_item plain_env item_two_hosts))"
    "\<not> list_ex is_missing_address (fst (extract_item plain_env item_two_hosts))"
    by simp_all
  have m3: "metadata_field item_bare ''namespace'' = Inr (JStr ''web'')"
    "metadata_field item_bare ''name'' = Inr (JStr ''bare'')"
    and h3: "item_hosts item_bare = Inr []"
    and a3: "item_address item_bare = Inr []"
    by (simp_all add: item_bare_def run_defs)
  from hosts_and_address_warnings [OF m3, of plain_env] h3 a3
  have w3: "list_ex is_missing_hosts (fst (extract_item plain_env item_bare))"
    "list_ex is_missing_address (fst (extract_item plain_env item_bare))"
    by simp_all
  have m4: "metadata_field item_bad_status ''namespace'' = Inr (JStr ''web'')"
    "metadata_field item_bad_status ''name'' = Inr (JStr ''broken'')"
    and h4: "item_hosts item_bad_status = Inr []"
    and a4: "item_address item_bad_status = Inl AttributeError"
    by (simp_all add: item_bad_status_def run_defs)
  from hosts_and_address_warnings [OF m4, of plain_env] h4 a4
  have w4: "list_ex is_missing_hosts (fst (extract_item plain_env item_bad_status))"
    "\<not> list_ex is_missing_address (fst (extract_item plain_env item_bad_status))"
    by simp_all
  have s4: "snd (extract_item plain_env item_bad_status) = Inl AttributeError"
    by (simp add: run_bad_status)
  from m1 h1 a1 w1 m2 h2 a2 w2 m3 h3 a3 w3 m4 h4 a4 s4 w4 show ?thesis
    by (intro conjI)
qed

section \<open>Placeholders\<close>

lemma contributes_Nil_iff:
  "list_all2 (contributes k) xs hs \<Longrightarrow>
     (join '', '' hs = [] \<longleftrightarrow> xs = [] \<or> (\<exists>x. xs = [x] \<and> subscript x k = Inr (JStr [])))"
proof -
  assume a: "list_all2 (contributes k) xs hs"
  have c: "contributes k x [] \<longleftrightarrow> subscript x k = Inr (JStr [])" for x
    by (auto simp: contributes_def split: sum.splits)
  have "hs = [] \<longleftrightarrow> xs = []"
    using a by auto
  moreover have "hs = [[]] \<longleftrightarrow> (\<exists>x. xs = [x] \<and> subscript x k = Inr (JStr []))"
  proof
    assume "hs = [[]]"
    with a obtain x where "xs = [x]" "contributes k x []"
      by (auto simp: list_all2_Cons2)
    with c show "\<exists>x. xs = [x] \<and> subscript x k = Inr (JStr [])" by blast
  next
    assume "\<exists>x. xs = [x] \<and> subscript x k = Inr (JStr [])"
    then obtain x where x: "xs = [x]" "subscript x k = Inr (JStr [])" by blast
    with a obtain z where z: "hs = [z]" "contributes k x z"
      by (auto simp: list_all2_Cons1)
    from z(2) x(2) have "z = []"
      by (simp add: contributes_def)
    with z show "hs = [[]]" by simp
  qed
  ultimately show ?thesis
    by (simp add: join_comma_eq_Nil)
qed

text \<open>
  C4, as the code has it. Every element of the rule list (of the load-balancer list)
  gives its \<open>host\<close> (\<open>ip\<close>) string to the joined string, or \<open>N/A\<close> when it
  has none. The joined string is empty exactly when the list is empty or is one element
  whose \<open>host\<close> (\<open>ip\<close>) is the empty string.
\<close>

theorem placeholder_per_missing_element:
  assumes "extract_item env item = (lg, Inr row)"
    and "item_rules item = Inr rules" and "item_lbs item = Inr lbs"
  shows "\<exists>hs ips.
           list_all2 (contributes ''host'') rules hs \<and> row ! 2 = JStr (join '', '' hs) \<and>
           list_all2 (contributes ''ip'') lbs ips \<and> row ! 3 = JStr (join '', '' ips) \<and>
           (row ! 2 = JStr [] \<longleftrightarrow>
              rules = [] \<or> (\<exists>rule. rules = [rule] \<and> subscript rule ''host'' = Inr (JStr []))) \<and>
           (row ! 3 = JStr [] \<longleftrightarrow>
              lbs = [] \<or> (\<exists>lb. lbs = [lb] \<and> subscript lb ''ip'' = Inr (JStr [])))"
proof -
  from extract_item_rowD [OF assms(1)] obtain ns nm hosts address ports where
    row: "row = [ns, nm, JStr hosts, JStr address, JStr ports]"
    and h: "item_hosts item = Inr hosts" and a: "item_address item = Inr address"
    by blast
  from h assms(2) obtain hs where
    hs: "list_all2 (contributes ''host'') rules hs" "hosts = join '', '' hs"
    using keyed_join [of "''host''" rules hosts] by (auto simp: item_hosts_def)
  from a assms(3) obtain ips where
    ips: "list_all2 (contributes ''ip'') lbs ips" "address = join '', '' ips"
    using keyed_join [of "''ip''" lbs address] by (auto simp: item_address_def)
  have r2: "row ! 2 = JStr (join '', '' hs)" and r3: "row ! 3 = JStr (join '', '' ips)"
    by (simp_all add: row hs ips)
  have "row ! 2 = JStr [] \<longleftrightarrow>
          rules = [] \<or> (\<exists>rule. rules = [rule] \<and> subscript rule ''host'' = Inr (JStr []))"
    using contributes_Nil_iff [OF hs(1)] by (simp add: r2)
  moreover have "row ! 3 = JStr [] \<longleftrightarrow>
          lbs = [] \<or> (\<exists>lb. lbs = [lb] \<and> subscript lb ''ip'' = Inr (JStr []))"
    using contributes_Nil_iff [OF ips(1)] by (simp add: r3)
  ultimately show ?thesis using hs(1) ips(1) r2 r3 by blast
qed

theorem placeholder_per_missing_element_witness:
  "\<exists>lg row rules lbs.
      extract_item plain_env item_tls_placeholder = (lg, Inr row) \<and>
      item_rules item_tls_placeholder = Inr rules \<and> item_lbs item_tls_placeholder = Inr lbs \<and>
      list_all2 (contributes ''host'') rules [''N/A''] \<and> row ! 2 = JStr ''N/A'' \<and>
      list_all2 (contributes ''ip'') lbs [''N/A''] \<and> row ! 3 = JStr ''N/A'' \<and>
      rules \<noteq> [] \<and> lbs \<noteq> []"
proof -
  have r: "item_rules item_tls_placeholder = Inr [JObj []]"
    and l: "item_lbs item_tls_placeholder = Inr [JObj []]"
    by (simp_all add: item_tls_placeholder_def run_defs)
  from placeholder_per_missing_element [OF run_tls_placeholder r l]
  obtain hs ips where
    h: "list_all2 (contributes ''host'') [JObj []] hs"
    and i: "list_all2 (contributes ''ip'') [JObj []] ips"
    by blast
  from h have "hs = [''N/A'']"
    by (auto simp: list_all2_Cons1 contributes_def subscript_def)
  moreover from i have "ips = [''N/A'']"
    by (auto simp: list_all2_Cons1 contributes_def subscript_def)
  ultimately show ?thesis
    using h i r l run_tls_placeholder by simp
qed

text \<open>
  The claim as it was stated fails: one rule whose host is the empty string joins to the
  empty string, and the rule list is not empty.
\<close>

theorem empty_hosts_nonempty_rules:
  "\<not> (\<forall>env item lg row rules.
         extract_item env item = (lg, Inr row) \<and> item_rules item = Inr rules
           \<longrightarrow> (row ! 2 = JStr [] \<longleftrightarrow> rules = []))"
proof
  assume a: "\<forall>env item lg row rules.
         extract_item env item = (lg, Inr row) \<and> item_rules item = Inr rules
           \<longrightarrow> (row ! 2 = JStr [] \<longleftrightarrow> rules = [])"
  obtain rule where r: "item_rules item_empty_port = Inr [rule]"
    by (simp add: item_empty_port_def run_defs)
  from a run_empty_port r
  have "[JStr ''web'', JStr ''odd'', JStr [], JStr [], JStr []] ! 2 = JStr [] \<longleftrightarrow> [rule] = []"
    by blast
  then show False by simp
qed

section \<open>The rows of a document\<close>

lemma extract_loop_rows:
  "extract_loop env items lg acc = (lg', Inr rows) \<Longrightarrow>
     \<exists>new. rows = acc @ new \<and>
       list_all2 (\<lambda>item row. \<exists>l. extract_item env item = (l, Inr row)) items new"
proof (induction items arbitrary: lg acc)
  case Nil
  then show ?case by simp
next
  case (Cons item items)
  obtain l r where e: "extract_item env item = (l, r)"
    by (cases "extract_item env item")
  with Cons.prems obtain row where r: "r = Inr row"
    by (cases r) auto
  with e Cons.prems have "extract_loop env items (lg @ l) (acc @ [row]) = (lg', Inr rows)"
    by simp
  from Cons.IH [OF this] obtain new where
    "rows = (acc @ [row]) @ new"
    "list_all2 (\<lambda>item row. \<exists>l. extract_item env item = (l, Inr row)) items new"
    by blast
  with e r show ?case
    by (intro exI [of _ "row # new"]) auto
qed

lemma extract_loop_log:
  "set (fst (extract_loop env items lg acc))
     \<subseteq> set lg \<union> (\<Union>item\<in>set items. set (fst (extract_item env item)))"
proof (induction items arbitrary: lg acc)
  case Nil
  then show ?case by simp
next
  case (Cons item items)
  obtain l r where e: "extract_item env item = (l, r)"
    by (cases "extract_item env item")
  show ?case
  proof (cases r)
    case (Inl err)
    with e show ?thesis by auto
  next
    case (Inr row)
    with e Cons.IH [of "lg @ l" "acc @ [row]"] show ?thesis by auto
  qed
qed
lemma run_null_namespace_doc:
  "extract_ingress_info plain_env (JObj [(''items'', JArr [item_null_namespace])]) =
     ([Info_extracting JNull (JStr ''x''),
       Warn_missing_hosts (JStr ''x'') JNull,
       Warn_missing_address (JStr ''x'') JNull],
      Inr [[JNull, JStr ''x'', JStr [], JStr [], JStr ''80'']])"
  by (simp add: extract_ingress_info_def subscript_def py_iter_def run_null_namespace)

text \<open>
  C8, as the code has it. Every row of a document has five fields. The hosts, the
  address and the ports are strings; the namespace and the name are the values found
  under the item's metadata, of whatever type.
\<close>

theorem rows_have_five_fields:
  assumes "extract_ingress_info env json_data = (lg, Inr rows)"
  shows "\<exists>items. bind_err (subscript json_data ''items'') py_iter = Inr items \<and>
           list_all2 (\<lambda>item row.
               length row = 5 \<and>
               metadata_field item ''namespace'' = Inr (row ! 0) \<and>
               metadata_field item ''name'' = Inr (row ! 1) \<and>
               is_str (row ! 2) \<and> is_str (row ! 3) \<and> is_str (row ! 4)) items rows"
proof -
  from assms obtain items where
    i: "bind_err (subscript json_data ''items'') py_iter = Inr items"
    and l: "extract_loop env items [] [] = (lg, Inr rows)"
    unfolding extract_ingress_info_def by (auto split: sum.splits)
  from extract_loop_rows [OF l]
  have "list_all2 (\<lambda>item row. \<exists>l. extract_item env item = (l, Inr row)) items rows"
    by simp
  moreover have "length row = 5 \<and>
               metadata_field item ''namespace'' = Inr (row ! 0) \<and>
               metadata_field item ''name'' = Inr (row ! 1) \<and>
               is_str (row ! 2) \<and> is_str (row ! 3) \<and> is_str (row ! 4)"
    if "\<exists>l. extract_item env item = (l, Inr row)" for item row
  proof -
    from that obtain l where "extract_item env item = (l, Inr row)" ..
    from extract_item_rowD [OF this] show ?thesis by auto
  qed
  ultimately have "list_all2 (\<lambda>item row.
               length row = 5 \<and>
               metadata_field item ''namespace'' = Inr (row ! 0) \<and>
               metadata_field item ''name'' = Inr (row ! 1) \<and>
               is_str (row ! 2) \<and> is_str (row ! 3) \<and> is_str (row ! 4)) items rows"
    by (rule list_all2_mono)
  with i show ?thesis by blast
qed

theorem rows_have_five_fields_witness:
  "\<exists>lg rows items.
      extract_ingress_info plain_env (JObj [(''items'', JArr [item_null_namespace])]) = (lg, Inr rows) \<and>
      bind_err (subscript (JObj [(''items'', JArr [item_null_namespace])]) ''items'') py_iter = Inr items \<and>
      list_all2 (\<lambda>item row.
               length row = 5 \<and>
               metadata_field item ''namespace'' = Inr (row ! 0) \<and>
               metadata_field item ''name'' = Inr (row ! 1) \<and>
               is_str (row ! 2) \<and> is_str (row ! 3) \<and> is_str (row ! 4)) items rows"
  using rows_have_five_fields [OF run_null_namespace_doc] run_null_namespace_doc by blast

text \<open>
  The claim as it was stated fails: a namespace that is \<^verbatim>\<open>null\<close> goes into the row as
  it is.
\<close>

theorem null_namespace_row:
  "\<not> (\<forall>env json_data lg rows.
         extract_ingress_info env json_data = (lg, Inr rows)
           \<longrightarrow> (\<forall>row\<in>set rows. length row = 5 \<and> list_all is_str row))"
proof
  assume "\<forall>env json_data lg rows.
         extract_ingress_info env json_data = (lg, Inr rows)
           \<longrightarrow> (\<forall>row\<in>set rows. length row = 5 \<and> list_all is_str row)"
  with run_null_namespace_doc
  have "\<forall>row\<in>set [[JNull, JStr ''x'', JStr [], JStr [], JStr ''80'']]. length row = 5 \<and> list_all is_str row"
    by blast
  then show False by simp
qed

section \<open>Ports\<close>

lemma set_fold_set_add: "set (fold set_add xs s) = set s \<union> set xs"
  by (induction xs arbitrary: s) (auto simp: set_add_def)

lemma distinct_fold_set_add: "distinct s \<Longrightarrow> distinct (fold set_add xs s)"
  by (induction xs arbitrary: s) (auto simp: set_add_def)

lemma map_err_append_eq_Inr:
  "map_err f (xs @ ys) = Inr zs \<longleftrightarrow>
     (\<exists>as bs. map_err f xs = Inr as \<and> map_err f ys = Inr bs \<and> zs = as @ bs)"
proof (induction xs arbitrary: zs)
  case Nil
  then show ?case by simp
next
  case (Cons x xs)
  show ?case
    unfolding append_Cons map_err_Cons_eq_Inr Cons.IH by (auto simp: map_err_Cons_eq_Inr)
qed

lemma paths_loop_eq_Inr:
  "paths_loop env paths ports = Inr r \<longleftrightarrow>
     (\<exists>vs. map_err path_service_port paths = Inr vs \<and>
           r = fold set_add (map (py_str env) vs) ports)"
proof (induction paths arbitrary: ports)
  case Nil
  then show ?case by auto
next
  case (Cons path paths)
  show ?case
    unfolding paths_loop.simps bind_err_eq_Inr Cons.IH map_err_Cons_eq_Inr
    by (auto simp: map_err_Cons_eq_Inr)
qed

lemma rules_loop_eq_Inr:
  "rules_loop env rules ports = Inr r \<longleftrightarrow>
     (\<exists>pss vs. map_err rule_paths rules = Inr pss \<and>
           map_err path_service_port (concat pss) = Inr vs \<and>
           r = fold set_add (map (py_str env) vs) ports)"
proof (induction rules arbitrary: ports)
  case Nil
  then show ?case by auto
next
  case (Cons rule rules)
  show ?case
    unfolding rules_loop.simps bind_err_eq_Inr Cons.IH paths_loop_eq_Inr map_err_Cons_eq_Inr
    by (fastforce simp: map_err_append_eq_Inr)
qed

lemma item_ports_eq_Inr:
  "item_ports env item = Inr ports \<longleftrightarrow>
     (\<exists>tls vs. item_has_tls item = Inr tls \<and> item_service_ports item = Inr vs \<and>
        ports = fold set_add (map (py_str env) vs) (if tls then [''443''] else []))"
  unfolding item_ports_def item_service_ports_def bind_err_eq_Inr rules_loop_eq_Inr
  by (auto simp: set_add_def)

lemma dec_nat_not_Nil: "dec_nat n \<noteq> []"
  by (subst dec_nat.simps) simp

lemma dec_int_not_Nil: "dec_int i \<noteq> []"
  by (simp add: dec_int_def dec_nat_not_Nil)

lemma py_str_not_Nil:
  assumes "python_like env" and "v \<noteq> JStr []"
  shows "py_str env v \<noteq> []"
  using assms by (cases v) (auto simp: py_str_def python_like_def dec_int_not_Nil)

lemma ports_to_str_Nil: "ports_to_str env [] = ''80''"
  by (simp add: ports_to_str_def)

lemma ports_to_str_joined:
  assumes "enumerates (set_order env)" and "distinct ports" and "ports \<noteq> []"
  shows "\<exists>ps. ports_to_str env ports = join '', '' ps \<and> distinct ps \<and> set ps = set ports"
  using assms unfolding ports_to_str_def enumerates_def by auto

lemma ports_to_str_not_Nil:
  assumes "enumerates (set_order env)" and "distinct ports" and "[] \<notin> set ports"
  shows "ports_to_str env ports \<noteq> []"
proof (cases "ports = []")
  case True
  then show ?thesis by (simp add: ports_to_str_Nil)
next
  case False
  from ports_to_str_joined [OF assms(1,2) False] obtain ps where
    ps: "ports_to_str env ports = join '', '' ps" "set ps = set ports"
    by blast
  from ps(2) False assms(3) have "ps \<noteq> []" "ps \<noteq> [[]]"
    by auto
  with ps(1) show ?thesis
    by (simp add: join_comma_eq_Nil)
qed

text \<open>The ports field of a row, from the TLS test and the values of the loops.\<close>

lemma row_ports:
  assumes "extract_item env item = (lg, Inr row)"
  shows "\<exists>tls vs. item_has_tls item = Inr tls \<and> item_service_ports item = Inr vs \<and>
           row ! 4 = JStr (ports_to_str env
             (fold set_add (map (py_str env) vs) (if tls then [''443''] else [])))"
proof -
  from extract_item_rowD [OF assms] obtain ns nm hosts address ports where
    row: "row = [ns, nm, JStr hosts, JStr address, JStr ports]"
    and p: "item_ports_str env item = Inr ports"
    by blast
  from p obtain tls vs where
    "item_has_tls item = Inr tls" "item_service_ports item = Inr vs"
    "ports = ports_to_str env (fold set_add (map (py_str env) vs) (if tls then [''443''] else []))"
    unfolding item_ports_str_def bind_err_eq_Inr item_ports_eq_Inr by auto
  then show ?thesis by (auto simp: row)
qed

lemma python_like_plain_env: "python_like plain_env"
  by (simp add: python_like_def enumerates_def plain_env_def)

text \<open>
  C1, as the code has it. For an item that yields a row, on a platform that behaves as
  Python does: the ports string is not empty as long as no path has the empty string as
  its port number; without TLS and without paths it is \<open>80\<close>; with TLS and without
  paths it is \<open>443\<close>, so it contains \<open>443\<close>; without TLS and with paths whose port
  numbers are the integers \<open>ns\<close>, it is the \<open>", "\<close>-join of a list without
  repetition whose members are exactly the decimal forms of \<open>ns\<close>.
\<close>

theorem ports_string:
  assumes "python_like env" and "extract_item env item = (lg, Inr row)"
  shows "\<exists>tls vs ports.
           item_has_tls item = Inr tls \<and> item_service_ports item = Inr vs \<and>
           row ! 4 = JStr ports \<and>
           (JStr [] \<notin> set vs \<longrightarrow> ports \<noteq> []) \<and>
           (\<not> tls \<and> vs = [] \<longrightarrow> ports = ''80'') \<and>
           (tls \<and> vs = [] \<longrightarrow> ports = ''443'' \<and> py_substring ''443'' ports) \<and>
           (\<forall>ns. \<not> tls \<and> ns \<noteq> [] \<and> vs = map JInt ns \<longrightarrow>
              (\<exists>ps. ports = join '', '' ps \<and> distinct ps \<and> set ps = dec_int ` set ns))"
proof -
  from assms(1) have en: "enumerates (set_order env)"
    by (simp add: python_like_def)
  from row_ports [OF assms(2)] obtain tls vs where
    t: "item_has_tls item = Inr tls" and v: "item_service_ports item = Inr vs"
    and r: "row ! 4 = JStr (ports_to_str env
             (fold set_add (map (py_str env) vs) (if tls then [''443''] else [])))"
    by blast
  define ports where "ports = fold set_add (map (py_str env) vs) (if tls then [''443''] else [])"
  have d: "distinct ports"
    unfolding ports_def by (rule distinct_fold_set_add) simp
  have s: "set ports = (if tls then {''443''} else {}) \<union> py_str env ` set vs"
    unfolding ports_def by (simp add: set_fold_set_add)
  have one: "ports_to_str env ports \<noteq> []" if "JStr [] \<notin> set vs"
  proof (rule ports_to_str_not_Nil [OF en d])
    have "py_str env x \<noteq> []" if "x \<in> set vs" for x
      using py_str_not_Nil [OF assms(1), of x] that \<open>JStr [] \<notin> set vs\<close> by auto
    then have "[] \<notin> py_str env ` set vs"
      by (metis imageE)
    then show "[] \<notin> set ports"
      unfolding s by simp
  qed
  have two: "ports_to_str env ports = ''80''" if "\<not> tls \<and> vs = []"
    using that by (simp add: ports_def ports_to_str_Nil)
  have three: "ports_to_str env ports = ''443'' \<and> py_substring ''443'' (ports_to_str env ports)"
    if "tls \<and> vs = []"
  proof -
    from that have p: "ports = [''443'']" by (simp add: ports_def)
    from ports_to_str_joined [OF en d] p obtain ps where
      ps: "ports_to_str env ports = join '', '' ps" "distinct ps" "set ps = {''443''}"
      by auto
    from ps(2,3) have "ps = [''443'']"
      by (cases ps) (auto simp: subset_singleton_iff dest: subset_singletonD)
    with ps(1) show ?thesis by simp
  qed
  have four: "\<exists>ps. ports_to_str env ports = join '', '' ps \<and> distinct ps \<and> set ps = dec_int ` set ns"
    if "\<not> tls \<and> ns \<noteq> [] \<and> vs = map JInt ns" for ns
  proof -
    have "py_str env ` JInt ` set ns = dec_int ` set ns"
      by (simp add: image_image py_str_def)
    with that have "set ports = dec_int ` set ns"
      unfolding s by simp
    moreover from this that have "ports \<noteq> []" by auto
    ultimately show ?thesis
      using ports_to_str_joined [OF en d] by auto
  qed
  from t v r one two three four show ?thesis
    unfolding ports_def [symmetric] by blast
qed

theorem ports_string_witness:
  "python_like plain_env
   \<and> (\<exists>lg row. extract_item plain_env item_two_hosts = (lg, Inr row) \<and>
         item_has_tls item_two_hosts = Inr False \<and>
         item_service_ports item_two_hosts = Inr (map JInt [8080, 9090, 8080]) \<and>
         row ! 4 = JStr ''8080, 9090'' \<and>
         (\<exists>ps. ''8080, 9090'' = join '', '' ps \<and> distinct ps \<and>
               set ps = dec_int ` set [8080, 9090, 8080]))
   \<and> (\<exists>lg row. extract_item plain_env item_bare = (lg, Inr row) \<and>
         item_has_tls item_bare = Inr False \<and> item_service_ports item_bare = Inr [] \<and>
         row ! 4 = JStr ''80'')
   \<and> (\<exists>lg row. extract_item plain_env item_tls_placeholder = (lg, Inr row) \<and>
         item_has_tls item_tls_placeholder = Inr True \<and>
         item_service_ports item_tls_placeholder = Inr [] \<and>
         row ! 4 = JStr ''443'' \<and> py_substring ''443'' ''443'')"
proof -
  have t1: "item_has_tls item_two_hosts = Inr False"
    and v1: "item_service_ports item_two_hosts = Inr (map JInt [8080, 9090, 8080])"
    by (simp_all add: item_two_hosts_def run_defs)
  from ports_string [OF python_like_plain_env run_two_hosts] t1 v1
  have "\<forall>ns. ns \<noteq> [] \<and> [JInt 8080, JInt 9090, JInt 8080] = map JInt ns \<longrightarrow>
          (\<exists>ps. ''8080, 9090'' = join '', '' ps \<and> distinct ps \<and> set ps = dec_int ` set ns)"
    by auto
  from this [rule_format, of "[8080, 9090, 8080]"]
  have "\<exists>ps. ''8080, 9090'' = join '', '' ps \<and> distinct ps \<and>
               set ps = dec_int ` set [8080, 9090, 8080]"
    by simp
  with t1 v1 run_two_hosts
  have one: "\<exists>lg row. extract_item plain_env item_two_hosts = (lg, Inr row) \<and>
         item_has_tls item_two_hosts = Inr False \<and>
         item_service_ports item_two_hosts = Inr (map JInt [8080, 9090, 8080]) \<and>
         row ! 4 = JStr ''8080, 9090'' \<and>
         (\<exists>ps. ''8080, 9090'' = join '', '' ps \<and> distinct ps \<and>
               set ps = dec_int ` set [8080, 9090, 8080])"
    by simp
  have t2: "item_has_tls item_bare = Inr False" and v2: "item_service_ports item_bare = Inr []"
    by (simp_all add: item_bare_def run_defs)
  from ports_string [OF python_like_plain_env run_bare] t2 v2 run_bare
  have two: "\<exists>lg row. extract_item plain_env item_bare = (lg, Inr row) \<and>
         item_has_tls item_bare = Inr False \<and> item_service_ports item_bare = Inr [] \<and>
         row ! 4 = JStr ''80''"
    by simp
  have t3: "item_has_tls item_tls_placeholder = Inr True"
    and v3: "item_service_ports item_tls_placeholder = Inr []"
    by (simp_all add: item_tls_placeholder_def run_defs)
  from ports_string [OF python_like_plain_env run_tls_placeholder] t3 v3 run_tls_placeholder
  have three: "\<exists>lg row. extract_item plain_env item_tls_placeholder = (lg, Inr row) \<and>
         item_has_tls item_tls_placeholder = Inr True \<and>
         item_service_ports item_tls_placeholder = Inr [] \<and>
         row ! 4 = JStr ''443'' \<and> py_substring ''443'' ''443''"
    by simp
  from python_like_plain_env one two three show ?thesis by blast
qed

text \<open>
  The claim as it was stated fails: an item whose only path has the port number
  \<^verbatim>\<open>""\<close> has the empty string as its ports string.
\<close>

theorem empty_port_number_empty_ports:
  "\<not> (\<forall>env item lg row.
         python_like env \<and> extract_item env item = (lg, Inr row) \<longrightarrow> row ! 4 \<noteq> JStr [])"
proof
  assume "\<forall>env item lg row.
         python_like env \<and> extract_item env item = (lg, Inr row) \<longrightarrow> row ! 4 \<noteq> JStr []"
  with python_like_plain_env run_empty_port
  have "[JStr ''web'', JStr ''odd'', JStr [], JStr [], JStr []] ! 4 \<noteq> JStr []"
    by blast
  then show False by simp
qed

lemma ports_warning_only_with_row:
  assumes "list_ex is_missing_ports (fst (extract_item env item))"
  shows "\<exists>lg row. extract_item env item = (lg, Inr row) \<and> row ! 4 = JStr []"
proof -
  have no: "\<not> list_ex is_missing_ports
              ([Info_extracting ns nm]
                 @ (if py_substring ''N/A'' h \<or> h = [] then [Warn_missing_hosts nm ns] else [])
                 @ (if a = [] then [Warn_missing_address nm ns] else []))" for ns nm and h a :: string
    by simp
  obtain lg r where e: "extract_item env item = (lg, r)"
    by (cases "extract_item env item")
  show ?thesis
  proof (cases r)
    case (Inl err)
    with e have "\<not> list_ex is_missing_ports lg"
      unfolding extract_item_def Let_def
      by (auto split: sum.splits if_splits)
    with assms e show ?thesis by simp
  next
    case (Inr row)
    from extract_item_rowD [OF e [unfolded Inr]] obtain ns nm hosts address ports where
      "row = [ns, nm, JStr hosts, JStr address, JStr ports]"
      "lg = item_log ns nm hosts address ports"
      by blast
    with assms e Inr show ?thesis
      by (simp add: item_log_ports)
  qed
qed
lemma run_empty_port_doc:
  "fst (extract_ingress_info plain_env (JObj [(''items'', JArr [item_empty_port])])) =
     [Info_extracting (JStr ''web'') (JStr ''odd''),
      Warn_missing_hosts (JStr ''odd'') (JStr ''web''),
      Warn_missing_address (JStr ''odd'') (JStr ''web''),
      Warn_missing_ports (JStr ''odd'') (JStr ''web'')]"
  by (simp add: extract_ingress_info_def subscript_def py_iter_def run_empty_port)

lemma item_ports_str_not_Nil:
  assumes "python_like env" and "item_ports_str env item = Inr ports"
  shows "\<exists>vs. item_service_ports item = Inr vs \<and> (JStr [] \<notin> set vs \<longrightarrow> ports \<noteq> [])"
proof -
  from assms(1) have en: "enumerates (set_order env)"
    by (simp add: python_like_def)
  from assms(2) obtain tls vs where
    v: "item_service_ports item = Inr vs"
    and r: "ports = ports_to_str env
             (fold set_add (map (py_str env) vs) (if tls then [''443''] else []))"
    unfolding item_ports_str_def bind_err_eq_Inr item_ports_eq_Inr by auto
  define ps where "ps = fold set_add (map (py_str env) vs) (if tls then [''443''] else [])"
  have d: "distinct ps"
    unfolding ps_def by (rule distinct_fold_set_add) simp
  have s: "set ps = (if tls then {''443''} else {}) \<union> py_str env ` set vs"
    unfolding ps_def by (simp add: set_fold_set_add)
  have "ports_to_str env ps \<noteq> []" if "JStr [] \<notin> set vs"
  proof (rule ports_to_str_not_Nil [OF en d])
    have "py_str env x \<noteq> []" if "x \<in> set vs" for x
      using py_str_not_Nil [OF assms(1), of x] that \<open>JStr [] \<notin> set vs\<close> by auto
    then have "[] \<notin> py_str env ` set vs"
      by (metis imageE)
    then show "[] \<notin> set ps"
      unfolding s by simp
  qed
  with v r show ?thesis
    unfolding ps_def [symmetric] by auto
qed

lemma rows_come_from_items:
  assumes "extract_ingress_info env json_data = (lg, Inr rows)"
    and "bind_err (subscript json_data ''items'') py_iter = Inr items"
    and "row \<in> set rows"
  shows "\<exists>item\<in>set items. \<exists>l. extract_item env item = (l, Inr row)"
proof -
  from assms(1,2) have "extract_loop env items [] [] = (lg, Inr rows)"
    by (simp add: extract_ingress_info_def)
  from extract_loop_rows [OF this]
  have a: "list_all2 (\<lambda>item row. \<exists>l. extract_item env item = (l, Inr row)) items rows"
    by simp
  from assms(3) obtain i where "i < length rows" "rows ! i = row"
    by (auto simp: in_set_conv_nth)
  with a have "items ! i \<in> set items" "\<exists>l. extract_item env (items ! i) = (l, Inr row)"
    by (auto simp: list_all2_conv_all_nth)
  then show ?thesis by blast
qed

lemma run_good_doc_rows:
  "snd (extract_ingress_info plain_env (JObj [(''items'', JArr [item_two_hosts, item_tls_placeholder])])) =
     Inr [[JStr ''web'', JStr ''shop'', JStr ''a.example, b.example'', JStr ''10.0.0.1'',
           JStr ''8080, 9090''],
          [JStr ''web'', JStr ''secure'', JStr ''N/A'', JStr ''N/A'', JStr ''443'']]"
  by (simp add: extract_ingress_info_def subscript_def py_iter_def run_two_hosts run_tls_placeholder)

text \<open>
  C2, as the code has it. On a platform that behaves as Python does, in a document in
  which no path has the empty string as its port number, the ports string of an item is
  never empty, in no row is the ports field empty, and the missing-ports warning is
  never logged, whether the extractor returns or raises.
\<close>

theorem ports_warning_needs_empty_number:
  assumes "python_like env"
    and "bind_err (subscript json_data ''items'') py_iter = Inr items"
    and "\<forall>item\<in>set items. \<forall>vs. item_service_ports item = Inr vs \<longrightarrow> JStr [] \<notin> set vs"
  shows "(\<forall>item\<in>set items. \<forall>ports. item_ports_str env item = Inr ports \<longrightarrow> ports \<noteq> [])
       \<and> (\<forall>rows. snd (extract_ingress_info env json_data) = Inr rows \<longrightarrow>
             (\<forall>row\<in>set rows. \<exists>ports. row ! 4 = JStr ports \<and> ports \<noteq> []))
       \<and> \<not> list_ex is_missing_ports (fst (extract_ingress_info env json_data))"
proof -
  have one: "ports \<noteq> []" if "item \<in> set items" "item_ports_str env item = Inr ports" for item ports
    using item_ports_str_not_Nil [OF assms(1) that(2)] assms(3) that(1) by auto
  have two: "\<exists>ports. row ! 4 = JStr ports \<and> ports \<noteq> []"
    if "snd (extract_ingress_info env json_data) = Inr rows" "row \<in> set rows" for rows row
  proof -
    from that(1) have "extract_ingress_info env json_data
        = (fst (extract_ingress_info env json_data), Inr rows)"
      by (metis prod.collapse)
    from rows_come_from_items [OF this assms(2) that(2)] obtain item l where
      i: "item \<in> set items" "extract_item env item = (l, Inr row)"
      by blast
    from extract_item_rowD [OF i(2)] obtain ports where
      "item_ports_str env item = Inr ports" "row ! 4 = JStr ports"
      by auto
    with one [OF i(1)] show ?thesis by blast
  qed
  have three: "\<not> list_ex is_missing_ports (fst (extract_ingress_info env json_data))"
  proof
    assume "list_ex is_missing_ports (fst (extract_ingress_info env json_data))"
    then obtain w where w: "w \<in> set (fst (extract_loop env items [] []))" "is_missing_ports w"
      using assms(2) by (auto simp: extract_ingress_info_def list_ex_iff)
    with extract_loop_log [of env items "[]" "[]"] obtain item where
      i: "item \<in> set items" "w \<in> set (fst (extract_item env item))"
      by auto
    with w(2) have "list_ex is_missing_ports (fst (extract_item env item))"
      by (auto simp: list_ex_iff)
    from ports_warning_only_with_row [OF this] obtain lg row where
      r: "extract_item env item = (lg, Inr row)" "row ! 4 = JStr []"
      by blast
    from extract_item_rowD [OF r(1)] r(2) have "item_ports_str env item = Inr []"
      by auto
    with one [OF i(1)] show False by blast
  qed
  from one two three show ?thesis by blast
qed

theorem ports_warning_needs_empty_number_witness:
  "python_like plain_env
   \<and> bind_err (subscript (JObj [(''items'', JArr [item_two_hosts, item_tls_placeholder])]) ''items'') py_iter
       = Inr [item_two_hosts, item_tls_placeholder]
   \<and> (\<exists>vs. item_service_ports item_two_hosts = Inr vs \<and> JStr [] \<notin> set vs)
   \<and> (\<exists>vs. item_service_ports item_tls_placeholder = Inr vs \<and> JStr [] \<notin> set vs)
   \<and> (\<exists>ports. item_ports_str plain_env item_two_hosts = Inr ports \<and> ports \<noteq> [])
   \<and> (\<exists>ports. item_ports_str plain_env item_tls_placeholder = Inr ports \<and> ports \<noteq> [])
   \<and> (\<exists>rows. snd (extract_ingress_info plain_env
                     (JObj [(''items'', JArr [item_two_hosts, item_tls_placeholder])])) = Inr rows \<and>
         length rows = 2 \<and> (\<exists>ports. rows ! 0 ! 4 = JStr ports \<and> ports \<noteq> []) \<and>
         (\<exists>ports. rows ! 1 ! 4 = JStr ports \<and> ports \<noteq> []))
   \<and> \<not> list_ex is_missing_ports
        (fst (extract_ingress_info plain_env (JObj [(''items'', JArr [item_two_hosts, item_tls_placeholder])])))"
proof -
  let ?doc = "JObj [(''items'', JArr [item_two_hosts, item_tls_placeholder])]"
  have i: "bind_err (subscript ?doc ''items'') py_iter = Inr [item_two_hosts, item_tls_placeholder]"
    by (simp add: subscript_def py_iter_def)
  have v1: "item_service_ports item_two_hosts = Inr (map JInt [8080, 9090, 8080])"
    by (simp add: item_two_hosts_def run_defs)
  have v3: "item_service_ports item_tls_placeholder = Inr []"
    by (simp add: item_tls_placeholder_def run_defs)
  have p1: "item_ports_str plain_env item_two_hosts = Inr ''8080, 9090''"
    by (simp add: item_two_hosts_def run_defs dec_int_examples)
  have p3: "item_ports_str plain_env item_tls_placeholder = Inr ''443''"
    by (simp add: item_tls_placeholder_def run_defs)
  have h: "\<forall>item\<in>set [item_two_hosts, item_tls_placeholder].
             \<forall>vs. item_service_ports item = Inr vs \<longrightarrow> JStr [] \<notin> set vs"
    by (auto simp: v1 v3)
  note t = ports_warning_needs_empty_number [OF python_like_plain_env i h]
  from t p1 have a: "\<exists>ports. item_ports_str plain_env item_two_hosts = Inr ports \<and> ports \<noteq> []"
    by simp
  from t p3 have b: "\<exists>ports. item_ports_str plain_env item_tls_placeholder = Inr ports \<and> ports \<noteq> []"
    by simp
  from t run_good_doc_rows
  have c: "\<exists>rows. snd (extract_ingress_info plain_env ?doc) = Inr rows \<and>
         length rows = 2 \<and> (\<exists>ports. rows ! 0 ! 4 = JStr ports \<and> ports \<noteq> []) \<and>
         (\<exists>ports. rows ! 1 ! 4 = JStr ports \<and> ports \<noteq> [])"
    by simp
  from t have d: "\<not> list_ex is_missing_ports (fst (extract_ingress_info plain_env ?doc))"
    by blast
  from python_like_plain_env i v1 v3 a b c d show ?thesis
    by simp
qed

text \<open>
  The claim as it was stated fails: the warning branch is reached by a document whose
  item has a path with the port number \<^verbatim>\<open>""\<close>.
\<close>

theorem ports_warning_reachable:
  "\<not> (\<forall>env json_data.
         python_like env \<longrightarrow> \<not> list_ex is_missing_ports (fst (extract_ingress_info env json_data)))"
proof
  assume "\<forall>env json_data.
         python_like env \<longrightarrow> \<not> list_ex is_missing_ports (fst (extract_ingress_info env json_data))"
  with python_like_plain_env
  have "\<not> list_ex is_missing_ports
          (fst (extract_ingress_info plain_env (JObj [(''items'', JArr [item_empty_port])])))"
    by blast
  then show False by (simp add: run_empty_port_doc)
qed

section \<open>The orchestrator\<close>

lemma py_split_not_Nil: "py_split sep s \<noteq> []"
  by (induction s) (auto split: list.splits)

lemma hd_py_split: "hd (py_split sep s) = takeWhile (\<lambda>c. c \<noteq> sep) s"
  by (induction s) (auto split: list.splits simp: py_split_not_Nil)

lemma cluster_name_of_takeWhile: "cluster_name_of f = takeWhile (\<lambda>c. c \<noteq> CHR ''_'') f"
  by (simp add: cluster_name_of_def hd_py_split)

lemma cluster_prefix_of_takeWhile: "cluster_prefix_of c = takeWhile (\<lambda>c. c \<noteq> CHR ''-'') c"
  by (simp add: cluster_prefix_of_def hd_py_split)

lemma first_pass_skip:
  "\<not> suffix ''_ingress.json'' f \<Longrightarrow> first_pass env d r (f # rest) s = first_pass env d r rest s"
  by simp

lemma first_pass_match:
  assumes "suffix ''_ingress.json'' f" and "first_pass env d r (f # rest) s = (s', None)"
  shows "\<exists>doc lg info markdown.
           read_json_file env (os_path_join d f) = Inr doc \<and>
           extract_ingress_info env doc = (lg, Inr info) \<and>
           markdown_content env info (cluster_name_of f) = Inr markdown \<and>
           open_write env (report_path r f) = None \<and>
           first_pass env d r rest (after_file r f lg markdown s) = (s', None)"
proof -
  obtain doc where doc: "read_json_file env (os_path_join d f) = Inr doc"
    using assms by (cases "read_json_file env (os_path_join d f)") (auto simp: Let_def)
  obtain lg x where x: "extract_ingress_info env doc = (lg, x)"
    by (cases "extract_ingress_info env doc")
  with assms doc obtain info where info: "x = Inr info"
    by (cases x) (auto simp: Let_def)
  obtain markdown where m: "markdown_content env info (cluster_name_of f) = Inr markdown"
    using assms doc x info
    by (cases "markdown_content env info (cluster_name_of f)")
       (auto simp: Let_def generate_markdown_table_def)
  have w: "open_write env (report_path r f) = None"
    using assms doc x info m
    by (cases "open_write env (report_path r f)")
       (auto simp: Let_def generate_markdown_table_def report_path_def)
  have "first_pass env d r rest (after_file r f lg markdown s) = (s', None)"
    using assms doc x info m w
    by (simp add: Let_def generate_markdown_table_def report_path_def after_file_def)
  with doc x info m w show ?thesis by blast
qed

lemma after_file_simps:
  "console (after_file r f lg markdown s) = console s @ [Created (cluster_name_of f)]"
  "processed_clusters (after_file r f lg markdown s) =
     set_add (cluster_prefix_of (cluster_name_of f)) (processed_clusters s)"
  "files (after_file r f lg markdown s) = (files s)(report_path r f \<mapsto> markdown)"
  "logged (after_file r f lg markdown s) = logged s @ lg"
  by (simp_all add: after_file_def)

lemma first_pass_result:
  assumes "first_pass env d r names s = (s', None)"
  shows "console s' = console s @
           map (\<lambda>f. Created (cluster_name_of f)) (filter (suffix ''_ingress.json'') names)
       \<and> processed_clusters s' =
           fold set_add
             (map (\<lambda>f. cluster_prefix_of (cluster_name_of f)) (filter (suffix ''_ingress.json'') names))
             (processed_clusters s)
       \<and> dom (files s') = dom (files s) \<union> report_path r ` set (filter (suffix ''_ingress.json'') names)"
  using assms
proof (induction names arbitrary: s)
  case Nil
  then show ?case by simp
next
  case (Cons f rest)
  show ?case
  proof (cases "suffix ''_ingress.json'' f")
    case False
    with Cons.prems have "first_pass env d r rest s = (s', None)"
      by simp
    from Cons.IH [OF this] False show ?thesis by simp
  next
    case True
    from first_pass_match [OF True Cons.prems] obtain lg markdown where
      "first_pass env d r rest (after_file r f lg markdown s) = (s', None)"
      by blast
    from Cons.IH [OF this] True show ?thesis
      by (auto simp: after_file_simps)
  qed
qed

lemma summary_items_result:
  "summary_items c items s = (s', r) \<Longrightarrow>
     processed_clusters s' = processed_clusters s \<and> files s' = files s \<and>
     (\<exists>ls. console s' = console s @ ls \<and> list_all is_issue_line ls)"
proof (induction items arbitrary: s)
  case Nil
  then show ?case by simp
next
  case (Cons item items)
  show ?case
  proof (cases "metadata_field item ''namespace''")
    case (Inl e)
    with Cons.prems show ?thesis by simp
  next
    case ns: (Inr namespace)
    show ?thesis
    proof (cases "metadata_field item ''name''")
      case (Inl e)
      with Cons.prems ns show ?thesis by simp
    next
      case nm: (Inr name)
      show ?thesis
      proof (cases "item_hosts item")
        case (Inl e)
        with Cons.prems ns nm show ?thesis by simp
      next
        case (Inr hosts)
        define s1 where "s1 = (if py_substring ''N/A'' hosts \<or> hosts = []
             then s\<lparr>console := console s @ [Hosts_missing c namespace name hosts]\<rparr>
             else s)"
        from Cons.prems ns nm Inr have "summary_items c items s1 = (s', r)"
          by (simp add: s1_def)
        from Cons.IH [OF this] obtain ls where
          "processed_clusters s' = processed_clusters s1" "files s' = files s1"
          "console s' = console s1 @ ls" "list_all is_issue_line ls"
          by blast
        moreover have "processed_clusters s1 = processed_clusters s" "files s1 = files s"
          "\<exists>l. console s1 = console s @ l \<and> list_all is_issue_line l"
          by (simp_all add: s1_def)
        ultimately show ?thesis
          by (metis append.assoc list_all_append)
      qed
    qed
  qed
qed

lemma second_pass_result:
  "second_pass env d names s = (s', r) \<Longrightarrow>
     processed_clusters s' = processed_clusters s \<and> files s' = files s \<and>
     (\<exists>ls. console s' = console s @ ls \<and> list_all is_issue_line ls)"
proof (induction names arbitrary: s)
  case Nil
  then show ?case by simp
next
  case (Cons f rest)
  show ?case
  proof (cases "suffix ''_ingress.json'' f")
    case False
    with Cons.prems have "second_pass env d rest s = (s', r)" by simp
    from Cons.IH [OF this] show ?thesis .
  next
    case True
    show ?thesis
    proof (cases "bind_err (read_json_file env (os_path_join d f))
                   (\<lambda>json_data. bind_err (subscript json_data ''items'') py_iter)")
      case (Inl e)
      with Cons.prems True show ?thesis by (simp add: Let_def)
    next
      case (Inr items)
      obtain s1 r1 where s1: "summary_items (cluster_name_of f) items s = (s1, r1)"
        by (cases "summary_items (cluster_name_of f) items s")
      from summary_items_result [OF s1] obtain l1 where
        a: "processed_clusters s1 = processed_clusters s" "files s1 = files s"
           "console s1 = console s @ l1" "list_all is_issue_line l1"
        by blast
      show ?thesis
      proof (cases r1)
        case (Some e)
        with Cons.prems True Inr s1 have "s' = s1" by (simp add: Let_def)
        with a show ?thesis by blast
      next
        case None
        with Cons.prems True Inr s1 have "second_pass env d rest s1 = (s', r)"
          by (simp add: Let_def)
        from Cons.IH [OF this] obtain l2 where
          "processed_clusters s' = processed_clusters s1" "files s' = files s1"
          "console s' = console s1 @ l2" "list_all is_issue_line l2"
          by blast
        with a show ?thesis
          by (metis append.assoc list_all_append)
      qed
    qed
  qed
qed

text \<open>A run that returns has gone through every step.\<close>

lemma process_all_clusters_NoneD:
  assumes "process_all_clusters env d r = (s, None)"
  shows "\<exists>names s1 ls.
           listdir env d = Inr names \<and>
           first_pass env d r names start = (s1, None) \<and>
           processed_clusters s = processed_clusters s1 \<and> files s = files s1 \<and>
           list_all is_issue_line ls \<and>
           console s = console (report_missed env s1) @ [Summary_header] @ ls @ [Logging_hint]"
proof -
  from assms obtain names where n: "listdir env d = Inr names"
    unfolding process_all_clusters_def
    by (cases "listdir env d") (auto split: option.splits if_splits)
  obtain s1 r1 where f: "first_pass env d r names start = (s1, r1)"
    by (cases "first_pass env d r names start")
  with assms n have r1: "r1 = None"
    unfolding process_all_clusters_def
    by (cases r1) (auto split: option.splits if_splits)
  define s3 where "s3 = (report_missed env s1)\<lparr>console := console (report_missed env s1) @ [Summary_header]\<rparr>"
  obtain s4 r4 where p: "second_pass env d names s3 = (s4, r4)"
    by (cases "second_pass env d names s3")
  from assms n f r1 p have e: "r4 = None" "s = s4\<lparr>console := console s4 @ [Logging_hint]\<rparr>"
    unfolding process_all_clusters_def s3_def Let_def
    by (cases r4; auto split: option.splits if_splits)+
  from second_pass_result [OF p] obtain ls where
    "processed_clusters s4 = processed_clusters s3" "files s4 = files s3"
    "console s4 = console s3 @ ls" "list_all is_issue_line ls"
    by blast
  with e have "processed_clusters s = processed_clusters s1" "files s = files s1"
    "console s = console (report_missed env s1) @ [Summary_header] @ ls @ [Logging_hint]"
    "list_all is_issue_line ls"
    by (simp_all add: s3_def report_missed_def Let_def)
  with n f r1 show ?thesis by blast
qed

lemma created_clusters_append:
  "created_clusters (xs @ ys) = created_clusters xs @ created_clusters ys"
  by (induction xs rule: created_clusters.induct) simp_all

lemma created_clusters_map: "created_clusters (map (\<lambda>f. Created (g f)) fs) = map g fs"
  by (induction fs) simp_all

lemma created_clusters_issue: "list_all is_issue_line ls \<Longrightarrow> created_clusters ls = []"
  by (induction ls rule: created_clusters.induct) simp_all

lemma issue_lines_not_check:
  "list_all is_issue_line ls \<Longrightarrow> All_processed \<notin> set ls \<and> (\<forall>ms. Missed_clusters ms \<notin> set ls)"
  by (auto simp: list_all_iff)

lemmas run_all_defs =
  process_all_clusters_def start_def read_json_file_def extract_ingress_info_def
  generate_markdown_table_def markdown_content_def report_missed_def set_diff_def
  EXPECTED_CLUSTERS_def cluster_name_of_def cluster_prefix_of_def os_path_join_def
  suffix_to_prefix headers_def main_def

lemma listdir_two_clusters:
  "listdir two_clusters_env ''info_cache_20240101'' =
     Inr [''cluster1-a_ingress.json'', ''notes.txt'', ''cluster2-b_ingress.json'']"
  by (simp add: two_clusters_env_def)

lemma run_two_clusters:
  "snd (process_all_clusters two_clusters_env ''info_cache_20240101'' ''results'') = None"
  by (simp add: two_clusters_env_def item_bare_def run_all_defs run_defs)

lemma matching_two_clusters:
  "filter (suffix ''_ingress.json'')
     [''cluster1-a_ingress.json'', ''notes.txt'', ''cluster2-b_ingress.json'']
   = [''cluster1-a_ingress.json'', ''cluster2-b_ingress.json'']"
  by (simp add: suffix_to_prefix)

text \<open>
  C6. A run of the orchestrator that returns has written one report for each entry of
  the listing whose name ends with \<open>_ingress.json\<close>, and for no other entry, under
  the cluster name that is the part of the file name before its first underscore; the
  processed set holds the parts of these cluster names before their first hyphen; and
  the console has the missing-clusters warning exactly when the expected set minus the
  processed set is not empty, and the all-processed confirmation exactly when it is
  empty.
\<close>

theorem clusters_processed_and_checked:
  assumes "process_all_clusters env info_cache_dir results_dir = (s, None)"
  shows "\<exists>names.
      listdir env info_cache_dir = Inr names \<and>
      created_clusters (console s) =
        map (takeWhile (\<lambda>c. c \<noteq> CHR ''_'')) (filter (suffix ''_ingress.json'') names) \<and>
      dom (files s) =
        (\<lambda>f. os_path_join results_dir (takeWhile (\<lambda>c. c \<noteq> CHR ''_'') f @ ''_ingress.md''))
          ` set (filter (suffix ''_ingress.json'') names) \<and>
      set (processed_clusters s) =
        (\<lambda>f. takeWhile (\<lambda>c. c \<noteq> CHR ''-'') (takeWhile (\<lambda>c. c \<noteq> CHR ''_'') f))
          ` set (filter (suffix ''_ingress.json'') names) \<and>
      ((\<exists>missed. Missed_clusters missed \<in> set (console s)) \<longleftrightarrow>
         set EXPECTED_CLUSTERS - set (processed_clusters s) \<noteq> {}) \<and>
      (All_processed \<in> set (console s) \<longleftrightarrow>
         set EXPECTED_CLUSTERS - set (processed_clusters s) = {})"
proof -
  from process_all_clusters_NoneD [OF assms] obtain names s1 ls where
    n: "listdir env info_cache_dir = Inr names"
    and f: "first_pass env info_cache_dir results_dir names start = (s1, None)"
    and p: "processed_clusters s = processed_clusters s1"
    and fl: "files s = files s1"
    and ls: "list_all is_issue_line ls"
    and c: "console s = console (report_missed env s1) @ [Summary_header] @ ls @ [Logging_hint]"
    by blast
  let ?m = "filter (suffix ''_ingress.json'') names"
  from first_pass_result [OF f] have
    c1: "console s1 = map (\<lambda>f. Created (cluster_name_of f)) ?m"
    and p1: "processed_clusters s1 =
           fold set_add (map (\<lambda>f. cluster_prefix_of (cluster_name_of f)) ?m) []"
    and d1: "dom (files s1) = report_path results_dir ` set ?m"
    by (simp_all add: start_def)
  let ?missed = "set_diff EXPECTED_CLUSTERS (processed_clusters s1)"
  let ?line = "if ?missed \<noteq> [] then Missed_clusters (set_order env ?missed) else All_processed"
  have c2: "console s = map (\<lambda>f. Created (cluster_name_of f)) ?m
               @ [?line] @ [Summary_header] @ ls @ [Logging_hint]"
    unfolding c by (simp add: report_missed_def Let_def c1)
  have created: "created_clusters (console s) = map cluster_name_of ?m"
    unfolding c2
    by (simp add: created_clusters_append created_clusters_map created_clusters_issue [OF ls])
  have m: "?missed \<noteq> [] \<longleftrightarrow> set EXPECTED_CLUSTERS - set (processed_clusters s) \<noteq> {}"
    unfolding p set_diff_def by (auto simp: filter_empty_conv)
  have k1: "(\<exists>missed. Missed_clusters missed \<in> set (console s)) \<longleftrightarrow> ?missed \<noteq> []"
    unfolding c2 using issue_lines_not_check [OF ls] by auto
  have k2: "All_processed \<in> set (console s) \<longleftrightarrow> ?missed = []"
    unfolding c2 using issue_lines_not_check [OF ls] by auto
  have "created_clusters (console s) = map (takeWhile (\<lambda>c. c \<noteq> CHR ''_'')) ?m"
    using created by (simp add: cluster_name_of_takeWhile [abs_def])
  moreover have "dom (files s) =
        (\<lambda>f. os_path_join results_dir (takeWhile (\<lambda>c. c \<noteq> CHR ''_'') f @ ''_ingress.md'')) ` set ?m"
    unfolding fl d1 by (simp add: report_path_def [abs_def] cluster_name_of_takeWhile)
  moreover have "set (processed_clusters s) =
        (\<lambda>f. takeWhile (\<lambda>c. c \<noteq> CHR ''-'') (takeWhile (\<lambda>c. c \<noteq> CHR ''_'') f)) ` set ?m"
    unfolding p p1
    by (simp add: set_fold_set_add cluster_name_of_takeWhile cluster_prefix_of_takeWhile image_image)
  ultimately show ?thesis
    using n k1 k2 m by blast
qed

theorem clusters_processed_and_checked_witness:
  "\<exists>s. process_all_clusters two_clusters_env ''info_cache_20240101'' ''results'' = (s, None) \<and>
        created_clusters (console s) = [''cluster1-a'', ''cluster2-b''] \<and>
        dom (files s) = {''results/cluster1-a_ingress.md'', ''results/cluster2-b_ingress.md''} \<and>
        set (processed_clusters s) = {''cluster1'', ''cluster2''} \<and>
        All_processed \<in> set (console s) \<and>
        \<not> (\<exists>missed. Missed_clusters missed \<in> set (console s))"
proof -
  obtain s where s: "process_all_clusters two_clusters_env ''info_cache_20240101'' ''results'' = (s, None)"
    using run_two_clusters by (metis prod.collapse)
  from clusters_processed_and_checked [OF s] obtain names where
    n: "listdir two_clusters_env ''info_cache_20240101'' = Inr names"
    and a: "created_clusters (console s) =
        map (takeWhile (\<lambda>c. c \<noteq> CHR ''_'')) (filter (suffix ''_ingress.json'') names)"
    and b: "dom (files s) =
        (\<lambda>f. os_path_join ''results'' (takeWhile (\<lambda>c. c \<noteq> CHR ''_'') f @ ''_ingress.md''))
          ` set (filter (suffix ''_ingress.json'') names)"
    and c: "set (processed_clusters s) =
        (\<lambda>f. takeWhile (\<lambda>c. c \<noteq> CHR ''-'') (takeWhile (\<lambda>c. c \<noteq> CHR ''_'') f))
          ` set (filter (suffix ''_ingress.json'') names)"
    and d: "(\<exists>missed. Missed_clusters missed \<in> set (console s)) \<longleftrightarrow>
         set EXPECTED_CLUSTERS - set (processed_clusters s) \<noteq> {}"
    and e: "All_processed \<in> set (console s) \<longleftrightarrow>
         set EXPECTED_CLUSTERS - set (processed_clusters s) = {}"
    by blast
  from n listdir_two_clusters have names:
    "names = [''cluster1-a_ingress.json'', ''notes.txt'', ''cluster2-b_ingress.json'']"
    by simp
  have a': "created_clusters (console s) = [''cluster1-a'', ''cluster2-b'']"
    unfolding a names matching_two_clusters by simp
  have b': "dom (files s) = {''results/cluster1-a_ingress.md'', ''results/cluster2-b_ingress.md''}"
    unfolding b names matching_two_clusters by (simp add: os_path_join_def suffix_to_prefix)
  have c': "set (processed_clusters s) = {''cluster1'', ''cluster2''}"
    unfolding c names matching_two_clusters by simp
  have f: "set EXPECTED_CLUSTERS - set (processed_clusters s) = {}"
    unfolding c' by (simp add: EXPECTED_CLUSTERS_def set_add_def)
  from d e f have "All_processed \<in> set (console s)"
    and "\<not> (\<exists>missed. Missed_clusters missed \<in> set (console s))"
    by simp_all
  with s a' b' c' show ?thesis by blast
qed

section \<open>Two snapshots, one report\<close>

lemma first_pass_two:
  assumes "suffix ''_ingress.json'' f1" and "suffix ''_ingress.json'' f2"
    and "cluster_name_of f1 = cluster_name_of f2"
    and "first_pass env d r [f1, f2] s = (s', None)"
  shows "\<exists>doc lg info markdown.
           read_json_file env (os_path_join d f2) = Inr doc \<and>
           extract_ingress_info env doc = (lg, Inr info) \<and>
           markdown_content env info (cluster_name_of f2) = Inr markdown \<and>
           files s' (report_path r f1) = Some markdown"
proof -
  from first_pass_match [OF assms(1,4)] obtain lg1 markdown1 where
    "first_pass env d r [f2] (after_file r f1 lg1 markdown1 s) = (s', None)"
    by blast
  from first_pass_match [OF assms(2) this] obtain doc lg info markdown where
    a: "read_json_file env (os_path_join d f2) = Inr doc"
      "extract_ingress_info env doc = (lg, Inr info)"
      "markdown_content env info (cluster_name_of f2) = Inr markdown"
      "s' = after_file r f2 lg markdown (after_file r f1 lg1 markdown1 s)"
    by auto
  from a(4) assms(3) have "files s' (report_path r f1) = Some markdown"
    by (simp add: after_file_simps report_path_def)
  with a show ?thesis by blast
qed

text \<open>
  C10. The file names \<open>a_ingress.json\<close> and \<open>a_b_ingress.json\<close> differ, both end
  with \<open>_ingress.json\<close>, and both have the cluster name \<open>a\<close>. Whenever a
  directory lists two such files and the run returns, the run has reported two clusters
  and written one file, and this file holds the report of the snapshot listed later.
\<close>

theorem later_report_overwrites:
  "''a_ingress.json'' \<noteq> ''a_b_ingress.json'' \<and>
   suffix ''_ingress.json'' ''a_ingress.json'' \<and> suffix ''_ingress.json'' ''a_b_ingress.json'' \<and>
   cluster_name_of ''a_ingress.json'' = cluster_name_of ''a_b_ingress.json'' \<and>
   (\<forall>env d r f1 f2 s.
      suffix ''_ingress.json'' f1 \<and> suffix ''_ingress.json'' f2 \<and>
      cluster_name_of f1 = cluster_name_of f2 \<and>
      listdir env d = Inr [f1, f2] \<and> process_all_clusters env d r = (s, None) \<longrightarrow>
        created_clusters (console s) = [cluster_name_of f1, cluster_name_of f2] \<and>
        dom (files s) = {os_path_join r (cluster_name_of f1 @ ''_ingress.md'')} \<and>
        (\<exists>doc lg info markdown.
           read_json_file env (os_path_join d f2) = Inr doc \<and>
           extract_ingress_info env doc = (lg, Inr info) \<and>
           markdown_content env info (cluster_name_of f2) = Inr markdown \<and>
           files s (os_path_join r (cluster_name_of f1 @ ''_ingress.md'')) = Some markdown))"
proof -
  have "created_clusters (console s) = [cluster_name_of f1, cluster_name_of f2] \<and>
        dom (files s) = {os_path_join r (cluster_name_of f1 @ ''_ingress.md'')} \<and>
        (\<exists>doc lg info markdown.
           read_json_file env (os_path_join d f2) = Inr doc \<and>
           extract_ingress_info env doc = (lg, Inr info) \<and>
           markdown_content env info (cluster_name_of f2) = Inr markdown \<and>
           files s (os_path_join r (cluster_name_of f1 @ ''_ingress.md'')) = Some markdown)"
    if m: "suffix ''_ingress.json'' f1" "suffix ''_ingress.json'' f2"
      and c: "cluster_name_of f1 = cluster_name_of f2"
      and l: "listdir env d = Inr [f1, f2]"
      and p: "process_all_clusters env d r = (s, None)"
    for env d r f1 f2 s
  proof -
    from process_all_clusters_NoneD [OF p] l obtain s1 ls where
      f: "first_pass env d r [f1, f2] start = (s1, None)"
      and fl: "files s = files s1"
      and ls: "list_all is_issue_line ls"
      and co: "console s = console (report_missed env s1) @ [Summary_header] @ ls @ [Logging_hint]"
      by auto
    from first_pass_result [OF f] m c have
      c1: "console s1 = [Created (cluster_name_of f1), Created (cluster_name_of f2)]"
      and d1: "dom (files s1) = {report_path r f1}"
      by (simp_all add: start_def report_path_def)
    have "created_clusters (console s) = [cluster_name_of f1, cluster_name_of f2]"
      unfolding co
      by (simp add: report_missed_def Let_def c1 created_clusters_append
            created_clusters_issue [OF ls])
    moreover from first_pass_two [OF m c f] fl d1
    have "dom (files s) = {os_path_join r (cluster_name_of f1 @ ''_ingress.md'')}"
      and "\<exists>doc lg info markdown.
           read_json_file env (os_path_join d f2) = Inr doc \<and>
           extract_ingress_info env doc = (lg, Inr info) \<and>
           markdown_content env info (cluster_name_of f2) = Inr markdown \<and>
           files s (os_path_join r (cluster_name_of f1 @ ''_ingress.md'')) = Some markdown"
      by (simp_all add: report_path_def)
    ultimately show ?thesis by blast
  qed
  moreover have "''a_ingress.json'' \<noteq> ''a_b_ingress.json''"
    "suffix ''_ingress.json'' ''a_ingress.json''" "suffix ''_ingress.json'' ''a_b_ingress.json''"
    "cluster_name_of ''a_ingress.json'' = cluster_name_of ''a_b_ingress.json''"
    by (simp_all add: suffix_to_prefix cluster_name_of_def)
  ultimately show ?thesis by blast
qed

lemma join_results: "os_path_join ''results'' ''a_ingress.md'' = ''results/a_ingress.md''"
  by (simp add: os_path_join_def suffix_to_prefix)

lemma listdir_twin:
  "listdir twin_env ''info_cache_20240101'' = Inr [''a_ingress.json'', ''a_b_ingress.json'']"
  by (simp add: twin_env_def)

lemma run_twin:
  "snd (process_all_clusters twin_env ''info_cache_20240101'' ''results'') = None"
  by (simp add: twin_env_def item_bare_def run_all_defs run_defs)

lemma read_twin:
  "read_json_file twin_env (os_path_join ''info_cache_20240101'' ''a_b_ingress.json'') = Inr (JObj [(''items'', JArr [])])"
  "read_json_file twin_env (os_path_join ''info_cache_20240101'' ''a_ingress.json'') = Inr (JObj [(''items'', JArr [item_bare])])"
  "extract_ingress_info twin_env (JObj [(''items'', JArr [])]) = ([], Inr [])"
  by (simp_all add: twin_env_def read_json_file_def os_path_join_def extract_ingress_info_def
        subscript_def py_iter_def suffix_to_prefix)

theorem later_report_overwrites_witness:
  "suffix ''_ingress.json'' ''a_ingress.json'' \<and> suffix ''_ingress.json'' ''a_b_ingress.json'' \<and>
   cluster_name_of ''a_ingress.json'' = cluster_name_of ''a_b_ingress.json'' \<and>
   listdir twin_env ''info_cache_20240101'' = Inr [''a_ingress.json'', ''a_b_ingress.json''] \<and>
   (\<exists>s. process_all_clusters twin_env ''info_cache_20240101'' ''results'' = (s, None) \<and>
        created_clusters (console s) = [''a'', ''a''] \<and>
        dom (files s) = {''results/a_ingress.md''} \<and>
        (\<exists>markdown. markdown_content twin_env [] ''a'' = Inr markdown \<and>
           files s ''results/a_ingress.md'' = Some markdown) \<and>
        markdown_content twin_env [] ''a''
          \<noteq> markdown_content twin_env [[JStr ''web'', JStr ''bare'', JStr [], JStr [], JStr ''80'']] ''a'')"
proof -
  obtain s where s: "process_all_clusters twin_env ''info_cache_20240101'' ''results'' = (s, None)"
    using run_twin by (metis prod.collapse)
  have m: "suffix ''_ingress.json'' ''a_ingress.json''" "suffix ''_ingress.json'' ''a_b_ingress.json''"
    and c: "cluster_name_of ''a_ingress.json'' = cluster_name_of ''a_b_ingress.json''"
    and a: "cluster_name_of ''a_ingress.json'' = ''a''" "cluster_name_of ''a_b_ingress.json'' = ''a''"
    by (simp_all add: suffix_to_prefix cluster_name_of_def)
  from later_report_overwrites m c listdir_twin s
  have "created_clusters (console s) = [cluster_name_of ''a_ingress.json'', cluster_name_of ''a_b_ingress.json''] \<and>
        dom (files s) = {os_path_join ''results'' (cluster_name_of ''a_ingress.json'' @ ''_ingress.md'')} \<and>
        (\<exists>doc lg info markdown.
           read_json_file twin_env (os_path_join ''info_cache_20240101'' ''a_b_ingress.json'') = Inr doc \<and>
           extract_ingress_info twin_env doc = (lg, Inr info) \<and>
           markdown_content twin_env info (cluster_name_of ''a_b_ingress.json'') = Inr markdown \<and>
           files s (os_path_join ''results'' (cluster_name_of ''a_ingress.json'' @ ''_ingress.md''))
             = Some markdown)"
    by blast
  then obtain doc lg info markdown where
    k: "created_clusters (console s) = [''a'', ''a'']"
       "dom (files s) = {''results/a_ingress.md''}"
    and d: "read_json_file twin_env (os_path_join ''info_cache_20240101'' ''a_b_ingress.json'') = Inr doc"
    and e: "extract_ingress_info twin_env doc = (lg, Inr info)"
    and g: "markdown_content twin_env info ''a'' = Inr markdown"
    and f: "files s ''results/a_ingress.md'' = Some markdown"
    unfolding a by (auto simp: join_results)
  from d have "doc = JObj [(''items'', JArr [])]"
    by (simp add: read_twin)
  with e have "info = []"
    by (simp add: read_twin)
  with f g have "\<exists>markdown. markdown_content twin_env [] ''a'' = Inr markdown \<and>
           files s ''results/a_ingress.md'' = Some markdown"
    by simp
  moreover have "markdown_content twin_env [] ''a''
          \<noteq> markdown_content twin_env [[JStr ''web'', JStr ''bare'', JStr [], JStr [], JStr ''80'']] ''a''"
    by (simp add: markdown_content_def twin_env_def plain_env_def dec_nat.simps)
  ultimately show ?thesis using m c listdir_twin s k by blast
qed

section \<open>The driver\<close>

text \<open>The driver returns on \<open>FileNotFoundError\<close>, whatever raised it, and on nothing else.\<close>

lemma main_outcome:
  "snd (main env today_date) =
     (case snd (process_all_clusters env (''info_cache_'' @ today_date) ''results'') of
        None \<Rightarrow> Returned
      | Some e \<Rightarrow> if e = FileNotFoundError then Returned else Uncaught e)"
  by (simp add: main_def Let_def split: prod.splits option.splits)

text \<open>
  C7, where the code departs from it. The directory exists and lists one snapshot that
  cannot be opened: the loader raises \<open>FileNotFoundError\<close>, and the driver catches it
  and prints that the directory does not exist.
\<close>

theorem missing_file_reported_as_missing_directory:
  "listdir dangling_env ''info_cache_20240101'' = Inr [''a_ingress.json''] \<and>
   read_json_file dangling_env (os_path_join ''info_cache_20240101'' ''a_ingress.json'')
     = Inl FileNotFoundError \<and>
   snd (main dangling_env ''20240101'') = Returned \<and>
   console (fst (main dangling_env ''20240101'')) = [Directory_missing ''info_cache_20240101'']"
  by (simp add: dangling_env_def run_all_defs plain_env_def)

end
